theory Spec2Isabelle
  imports Complex_Main
begin

section \<open>SharedState (load-test/locustfile.py, lines 49-100)\<close>

text \<open>
  The class keeps five fields behind one \<^verbatim>\<open>threading.Lock\<close>. Every method body is a
  single \<^verbatim>\<open>with self._lock:\<close> block, so a method call is one atomic transition of the
  record below, and a concurrent run of the callers is a sequence of such transitions in
  the order in which the lock was acquired. Python integers are unbounded: \<open>int\<close>.
  Product identifiers are integers (\<^verbatim>\<open>add_product(self, product_id: int)\<close>).
\<close>

record SharedState =
  product_ids :: "int list"
  setup_complete :: bool
  checkout_count :: int
  declined_count :: int
  customer_id_counter :: int

definition SharedState_init :: SharedState where
  "SharedState_init =
     \<lparr>product_ids = [], setup_complete = False, checkout_count = 0,
      declined_count = 0, customer_id_counter = 1\<rparr>"

definition add_product :: "int \<Rightarrow> SharedState \<Rightarrow> SharedState" where
  "add_product product_id s = s\<lparr>product_ids := product_ids s @ [product_id]\<rparr>"

text \<open>
  \<^verbatim>\<open>random.choice(seq)\<close> returns \<^verbatim>\<open>seq[self._randbelow(len(seq))]\<close>. The generator's
  draw is the parameter \<open>draw\<close>; \<open>draw mod length seq\<close> is the index below the length
  that it selects. The function is only called on a non-empty list.
\<close>

definition random_choice :: "nat \<Rightarrow> 'a list \<Rightarrow> 'a" where
  "random_choice draw seq = seq ! (draw mod length seq)"

definition get_random_product :: "nat \<Rightarrow> SharedState \<Rightarrow> int option" where
  "get_random_product draw s =
     (if product_ids s \<noteq> [] then Some (random_choice draw (product_ids s)) else None)"

definition mark_setup_complete :: "SharedState \<Rightarrow> SharedState" where
  "mark_setup_complete s = s\<lparr>setup_complete := True\<rparr>"

definition is_setup_complete :: "SharedState \<Rightarrow> bool" where
  "is_setup_complete s = setup_complete s"

definition increment_checkout :: "SharedState \<Rightarrow> int \<times> SharedState" where
  "increment_checkout s =
     (let s' = s\<lparr>checkout_count := checkout_count s + 1\<rparr> in (checkout_count s', s'))"

definition increment_declined :: "SharedState \<Rightarrow> int \<times> SharedState" where
  "increment_declined s =
     (let s' = s\<lparr>declined_count := declined_count s + 1\<rparr> in (declined_count s', s'))"

definition get_checkout_count :: "SharedState \<Rightarrow> int" where
  "get_checkout_count s = checkout_count s"

definition get_declined_count :: "SharedState \<Rightarrow> int" where
  "get_declined_count s = declined_count s"

definition get_next_customer_id :: "SharedState \<Rightarrow> int \<times> SharedState" where
  "get_next_customer_id s =
     (let customer_id = customer_id_counter s
      in (customer_id, s\<lparr>customer_id_counter := customer_id_counter s + 1\<rparr>))"

definition get_product_count :: "SharedState \<Rightarrow> int" where
  "get_product_count s = int (length (product_ids s))"

subsection \<open>Sequences of method calls\<close>

text \<open>
  A call of one of the ten methods, and what it returned. \<open>GetRandomProduct\<close> carries the
  generator's draw. A run of the object is a list of calls applied in order; \<open>run\<close> returns
  the calls paired with their return values, and the final state.
\<close>

datatype call =
    AddProduct int
  | GetRandomProduct nat
  | MarkSetupComplete
  | IsSetupComplete
  | IncrementCheckout
  | IncrementDeclined
  | GetCheckoutCount
  | GetDeclinedCount
  | GetNextCustomerId
  | GetProductCount

datatype ret = RNone | RBool bool | RInt int | RProduct "int option"

fun perform :: "call \<Rightarrow> SharedState \<Rightarrow> ret \<times> SharedState" where
  "perform (AddProduct p) s = (RNone, add_product p s)"
| "perform (GetRandomProduct draw) s = (RProduct (get_random_product draw s), s)"
| "perform MarkSetupComplete s = (RNone, mark_setup_complete s)"
| "perform IsSetupComplete s = (RBool (is_setup_complete s), s)"
| "perform IncrementCheckout s = (case increment_checkout s of (n, s') \<Rightarrow> (RInt n, s'))"
| "perform IncrementDeclined s = (case increment_declined s of (n, s') \<Rightarrow> (RInt n, s'))"
| "perform GetCheckoutCount s = (RInt (get_checkout_count s), s)"
| "perform GetDeclinedCount s = (RInt (get_declined_count s), s)"
| "perform GetNextCustomerId s = (case get_next_customer_id s of (n, s') \<Rightarrow> (RInt n, s'))"
| "perform GetProductCount s = (RInt (get_product_count s), s)"

fun run :: "call list \<Rightarrow> SharedState \<Rightarrow> (call \<times> ret) list \<times> SharedState" where
  "run [] s = ([], s)"
| "run (c # cs) s =
     (case perform c s of (r, s') \<Rightarrow>
        (case run cs s' of (tr, s'') \<Rightarrow> ((c, r) # tr, s'')))"

definition final :: "call list \<Rightarrow> SharedState \<Rightarrow> SharedState" where
  "final cs s = snd (run cs s)"

definition returned :: "call \<Rightarrow> call list \<Rightarrow> SharedState \<Rightarrow> ret list" where
  "returned c cs s = map snd (filter (\<lambda>(c', r). c' = c) (fst (run cs s)))"

definition calls_of :: "call \<Rightarrow> call list \<Rightarrow> nat" where
  "calls_of c cs = length (filter (\<lambda>c'. c' = c) cs)"

definition added :: "call list \<Rightarrow> int list" where
  "added cs = concat (map (\<lambda>c. case c of AddProduct p \<Rightarrow> [p] | _ \<Rightarrow> []) cs)"

section \<open>HTTP calls and the metrics sink\<close>

text \<open>
  What a caller sees of one HTTP exchange. \<^verbatim>\<open>resp.json()\<close> raises when the body is not
  JSON (\<open>NotJson\<close>) and returns a dictionary otherwise; \<^verbatim>\<open>.get(key)\<close> on it is
  \<open>map_of\<close>, which is \<open>None\<close> for a missing key (a JSON \<^verbatim>\<open>null\<close> reads as \<^verbatim>\<open>None\<close>
  too). The fields read by the callers (\<^verbatim>\<open>product_id\<close>, \<^verbatim>\<open>shopping_cart_id\<close>,
  \<^verbatim>\<open>order_id\<close>) are identifiers, that is integers.

  A call through \<^verbatim>\<open>self.client.post(..., catch_response=True)\<close> always yields a response
  (the load engine turns a network error into a response with status 0), and the block
  reports what \<^verbatim>\<open>resp.success()\<close> or \<^verbatim>\<open>resp.failure(...)\<close> marked last. A call
  through \<^verbatim>\<open>requests.post\<close> either raises or returns a response, and the caller fires
  \<^verbatim>\<open>events.request\<close> itself, with \<^verbatim>\<open>exception=None\<close> for a success.
\<close>

datatype json = NotJson | Object "(string \<times> int) list"

record response =
  status_code :: int
  payload :: json

datatype outcome = Raises | Returns response

datatype request =
    PostProduct
  | PostShoppingCart int
  | PostAddItem int int int
  | PostCheckout int

datatype failure = Text string | Status int | ParseError | Raised

datatype report = Success | Failure failure

text \<open>Python truthiness of the value of \<^verbatim>\<open>.get(key)\<close>: \<^verbatim>\<open>None\<close> and 0 are false.\<close>

definition truthy :: "int option \<Rightarrow> bool" where
  "truthy v = (case v of None \<Rightarrow> False | Some n \<Rightarrow> n \<noteq> 0)"

subsection \<open>load-test/locustfile.py\<close>

text \<open>
  Every caller below returns its return value (where it has one), the requests it sent,
  the reports it made to the metrics sink, and the shared state it left. The parameters
  \<open>resp\<close> are the answers of the server to the requests the caller sends, \<open>draw\<close> and
  \<open>quantity\<close> the results of \<^verbatim>\<open>random\<close>.
\<close>

definition ProductSetupUser_create_product ::
  "int \<Rightarrow> response \<Rightarrow> SharedState \<Rightarrow> request list \<times> report list \<times> SharedState" where
  "ProductSetupUser_create_product NUM_INITIAL_PRODUCTS resp s =
     (if get_product_count s \<ge> NUM_INITIAL_PRODUCTS then ([], [], s)
      else if status_code resp = 201 then
        (case payload resp of
           NotJson \<Rightarrow> ([PostProduct], [Failure ParseError], s)
         | Object d \<Rightarrow>
             (case map_of d ''product_id'' of
                Some product_id \<Rightarrow>
                  if truthy (Some product_id) then
                    (let s1 = add_product product_id s;
                         total = get_product_count s1;
                         s2 = (if total \<ge> NUM_INITIAL_PRODUCTS
                               then mark_setup_complete s1 else s1)
                     in ([PostProduct], [Success], s2))
                  else ([PostProduct], [Failure (Text ''No product_id'')], s)
              | None \<Rightarrow> ([PostProduct], [Failure (Text ''No product_id'')], s)))
      else ([PostProduct], [Failure (Status (status_code resp))], s))"

definition ShopperUser_create_cart ::
  "int \<Rightarrow> response \<Rightarrow> int option \<times> request list \<times> report list" where
  "ShopperUser_create_cart customer_id resp =
     (if status_code resp = 201 then
        (case payload resp of
           NotJson \<Rightarrow> (None, [PostShoppingCart customer_id], [Failure ParseError])
         | Object d \<Rightarrow>
             (let cart_id = map_of d ''shopping_cart_id'' in
              if truthy cart_id then (cart_id, [PostShoppingCart customer_id], [Success])
              else (None, [PostShoppingCart customer_id],
                    [Failure (Text ''No shopping_cart_id'')])))
      else (None, [PostShoppingCart customer_id], [Failure (Status (status_code resp))]))"

definition ShopperUser_add_item_to_cart ::
  "nat \<Rightarrow> int \<Rightarrow> int \<Rightarrow> response \<Rightarrow> SharedState \<Rightarrow> bool \<times> request list \<times> report list" where
  "ShopperUser_add_item_to_cart draw quantity cart_id resp s =
     (let product_id = get_random_product draw s in
      if \<not> truthy product_id then (False, [], [])
      else
        (case product_id of
           None \<Rightarrow> (False, [], [])
         | Some p \<Rightarrow>
             if status_code resp = 204 then (True, [PostAddItem cart_id p quantity], [Success])
             else (False, [PostAddItem cart_id p quantity],
                   [Failure (Status (status_code resp))])))"

definition ShopperUser_checkout_cart ::
  "int \<Rightarrow> response \<Rightarrow> SharedState \<Rightarrow> request list \<times> report list \<times> SharedState" where
  "ShopperUser_checkout_cart cart_id resp s =
     (if status_code resp = 200 then
        (case payload resp of
           NotJson \<Rightarrow> ([PostCheckout cart_id], [Failure ParseError], s)
         | Object d \<Rightarrow>
             if truthy (map_of d ''order_id'') then
               (case increment_checkout s of
                  (n, s') \<Rightarrow> ([PostCheckout cart_id], [Success], s'))
             else ([PostCheckout cart_id], [Failure (Text ''No order_id'')], s))
      else if status_code resp = 402 then
        (case increment_declined s of (n, s') \<Rightarrow> ([PostCheckout cart_id], [Success], s'))
      else ([PostCheckout cart_id], [Failure (Status (status_code resp))], s))"

subsection \<open>load-test/locustfile_aws.py\<close>


definition AWSUser_create_cart ::
  "int \<Rightarrow> response \<Rightarrow> int option \<times> request list \<times> report list" where
  "AWSUser_create_cart customer_id resp =
     (if status_code resp \<in> {200, 201} then
        (case payload resp of
           NotJson \<Rightarrow>
             (None, [PostShoppingCart customer_id], [Failure (Text ''No cart_id in response'')])
         | Object d \<Rightarrow>
             (let cart_id = map_of d ''shopping_cart_id'' in
              if truthy cart_id then (cart_id, [PostShoppingCart customer_id], [Success])
              else (None, [PostShoppingCart customer_id],
                    [Failure (Text ''No cart_id in response'')])))
      else (None, [PostShoppingCart customer_id], [Failure (Status (status_code resp))]))"

definition AWSUser_add_item ::
  "nat \<Rightarrow> int \<Rightarrow> int \<Rightarrow> response \<Rightarrow> SharedState \<Rightarrow> bool \<times> request list \<times> report list" where
  "AWSUser_add_item draw quantity cart_id resp s =
     (let product_id = get_random_product draw s in
      if \<not> truthy product_id then (False, [], [])
      else
        (case product_id of
           None \<Rightarrow> (False, [], [])
         | Some p \<Rightarrow>
             if status_code resp \<in> {200, 201, 204}
             then (True, [PostAddItem cart_id p quantity], [Success])
             else (False, [PostAddItem cart_id p quantity],
                   [Failure (Status (status_code resp))])))"


subsection \<open>load-test/locustfile_localstack.py\<close>


definition LocalStackUser_create_cart ::
  "int \<Rightarrow> outcome \<Rightarrow> int option \<times> request list \<times> report list" where
  "LocalStackUser_create_cart customer_id out =
     (case out of
        Raises \<Rightarrow> (None, [PostShoppingCart customer_id], [Failure Raised])
      | Returns resp \<Rightarrow>
          if status_code resp \<in> {200, 201} then
            (case payload resp of
               NotJson \<Rightarrow> (None, [PostShoppingCart customer_id], [Failure Raised])
             | Object d \<Rightarrow>
                 (map_of d ''shopping_cart_id'', [PostShoppingCart customer_id], [Success]))
          else (None, [PostShoppingCart customer_id],
                [Failure (Status (status_code resp))]))"

definition LocalStackUser_add_item ::
  "nat \<Rightarrow> int \<Rightarrow> int \<Rightarrow> outcome \<Rightarrow> SharedState \<Rightarrow> bool \<times> request list \<times> report list" where
  "LocalStackUser_add_item draw quantity cart_id out s =
     (let product_id = get_random_product draw s in
      if \<not> truthy product_id then (False, [], [])
      else
        (case product_id of
           None \<Rightarrow> (False, [], [])
         | Some p \<Rightarrow>
             (case out of
                Raises \<Rightarrow> (False, [PostAddItem cart_id p quantity], [Failure Raised])
              | Returns resp \<Rightarrow>
                  (let success = status_code resp \<in> {200, 201, 204} in
                   (success, [PostAddItem cart_id p quantity],
                    [if success then Success else Failure (Status (status_code resp))])))))"

definition LocalStackUser_checkout ::
  "int \<Rightarrow> outcome \<Rightarrow> SharedState \<Rightarrow> bool \<times> request list \<times> report list \<times> SharedState" where
  "LocalStackUser_checkout cart_id out s =
     (case out of
        Raises \<Rightarrow> (False, [PostCheckout cart_id], [Failure Raised], s)
      | Returns resp \<Rightarrow>
          if status_code resp = 200 then
            (case increment_checkout s of
               (n, s') \<Rightarrow> (True, [PostCheckout cart_id], [Success], s'))
          else if status_code resp = 402 then
            (case increment_declined s of
               (n, s') \<Rightarrow> (True, [PostCheckout cart_id], [Success], s'))
          else (False, [PostCheckout cart_id], [Failure (Status (status_code resp))], s))"

subsection \<open>load-test/locustfile_comparison.py\<close>












subsection \<open>Runs of checkout attempts\<close>

text \<open>
  A run makes checkout attempts one after the other; each attempt is a call of the
  checkout method with the cart and the server's answer. The only write of an attempt to
  the shared state is one locked increment, so attempts of concurrent users act on the
  counters as the same attempts in some order.
\<close>

fun ShopperUser_checkouts :: "(int \<times> response) list \<Rightarrow> SharedState \<Rightarrow> SharedState" where
  "ShopperUser_checkouts [] s = s"
| "ShopperUser_checkouts ((cart_id, resp) # as) s =
     ShopperUser_checkouts as (snd (snd (ShopperUser_checkout_cart cart_id resp s)))"

fun LocalStackUser_checkouts :: "(int \<times> outcome) list \<Rightarrow> SharedState \<Rightarrow> SharedState" where
  "LocalStackUser_checkouts [] s = s"
| "LocalStackUser_checkouts ((cart_id, out) # as) s =
     LocalStackUser_checkouts as (snd (snd (snd (LocalStackUser_checkout cart_id out s))))"

text \<open>The answers a claim counts: those with a given status, and those with an order id.\<close>

definition answered :: "int \<Rightarrow> response \<Rightarrow> bool" where
  "answered code resp = (status_code resp = code)"

definition has_order_id :: "response \<Rightarrow> bool" where
  "has_order_id resp =
     (case payload resp of NotJson \<Rightarrow> False | Object d \<Rightarrow> truthy (map_of d ''order_id''))"

definition returned_with :: "int \<Rightarrow> outcome \<Rightarrow> bool" where
  "returned_with code out =
     (case out of Raises \<Rightarrow> False | Returns resp \<Rightarrow> status_code resp = code)"

definition count_where :: "('a \<Rightarrow> bool) \<Rightarrow> 'a list \<Rightarrow> int" where
  "count_where P xs = int (length (filter P xs))"

section \<open>The setup protocol of load-test/locustfile.py as interleaved steps\<close>

text \<open>
  \<^verbatim>\<open>ProductSetupUser.create_product\<close> and \<^verbatim>\<open>ShopperUser.on_start\<close> call several
  methods of the shared state one after the other, and the lock is released between two
  calls, so other users may run in between. Each user is therefore a program counter, and
  a step of a user is the code from one call of a shared-state method up to the next one:

  \<^item> setup user: \<open>AtTask\<close> reads the product count and stops at the target or sends
    POST /product; \<open>Posting\<close> receives the answer; \<open>Adding p\<close> calls
    \<^verbatim>\<open>add_product(p)\<close>; \<open>Counting\<close> reads \<^verbatim>\<open>total\<close>; \<open>Marking\<close> calls
    \<^verbatim>\<open>mark_setup_complete()\<close>;
  \<^item> shopper: \<open>Constructing\<close> draws the customer id; \<open>Checking\<close> tests
    \<^verbatim>\<open>is_setup_complete()\<close>; \<open>Looking\<close> tests \<^verbatim>\<open>get_product_count() > 0\<close>;
    \<open>Completing\<close> calls \<^verbatim>\<open>mark_setup_complete()\<close> and leaves the loop; \<open>Sleeping\<close>
    is \<^verbatim>\<open>time.sleep(0.5)\<close>; \<open>Shopping\<close> runs the tasks, whose calls on the shared
    state (reading the counters, drawing a product, incrementing a counter) may come in
    any order here.

  A schedule is a list of events: which user moves, with the server's answer or the task's
  call where the step takes one. \<open>NUM\<close> is \<^verbatim>\<open>NUM_INITIAL_PRODUCTS\<close>.
\<close>

datatype setup_pc = AtTask | Posting | Adding int | Counting | Marking | Stopped

datatype shopper_pc = Constructing | Checking | Looking | Completing | Sleeping | Shopping

datatype user = ProductSetupUser setup_pc | ShopperUser shopper_pc

datatype event = Tick | Answer response | Task call

definition task_call :: "call \<Rightarrow> bool" where
  "task_call c =
     (case c of
        GetCheckoutCount \<Rightarrow> True
      | GetRandomProduct draw \<Rightarrow> True
      | IncrementCheckout \<Rightarrow> True
      | GetDeclinedCount \<Rightarrow> True
      | IncrementDeclined \<Rightarrow> True
      | _ \<Rightarrow> False)"

fun setup_step :: "int \<Rightarrow> event \<Rightarrow> setup_pc \<Rightarrow> SharedState \<Rightarrow> setup_pc \<times> SharedState" where
  "setup_step NUM ev AtTask s =
     (if get_product_count s \<ge> NUM then (Stopped, s) else (Posting, s))"
| "setup_step NUM (Answer resp) Posting s =
     (if status_code resp = 201 then
        (case payload resp of
           NotJson \<Rightarrow> (AtTask, s)
         | Object d \<Rightarrow>
             (case map_of d ''product_id'' of
                Some product_id \<Rightarrow>
                  if truthy (Some product_id) then (Adding product_id, s) else (AtTask, s)
              | None \<Rightarrow> (AtTask, s)))
      else (AtTask, s))"
| "setup_step NUM ev Posting s = (Posting, s)"
| "setup_step NUM ev (Adding product_id) s = (Counting, add_product product_id s)"
| "setup_step NUM ev Counting s =
     (let total = get_product_count s in
      if total \<ge> NUM then (Marking, s) else (AtTask, s))"
| "setup_step NUM ev Marking s = (AtTask, mark_setup_complete s)"
| "setup_step NUM ev Stopped s = (Stopped, s)"

fun shopper_step :: "event \<Rightarrow> shopper_pc \<Rightarrow> SharedState \<Rightarrow> shopper_pc \<times> SharedState" where
  "shopper_step ev Constructing s = (Checking, snd (get_next_customer_id s))"
| "shopper_step ev Checking s = (if is_setup_complete s then (Shopping, s) else (Looking, s))"
| "shopper_step ev Looking s =
     (if get_product_count s > 0 then (Completing, s) else (Sleeping, s))"
| "shopper_step ev Completing s = (Shopping, mark_setup_complete s)"
| "shopper_step ev Sleeping s = (Checking, s)"
| "shopper_step (Task c) Shopping s =
     (if task_call c then (Shopping, snd (perform c s)) else (Shopping, s))"
| "shopper_step ev Shopping s = (Shopping, s)"

fun user_step :: "int \<Rightarrow> event \<Rightarrow> user \<Rightarrow> SharedState \<Rightarrow> user \<times> SharedState" where
  "user_step NUM ev (ProductSetupUser pc) s =
     (case setup_step NUM ev pc s of (pc', s') \<Rightarrow> (ProductSetupUser pc', s'))"
| "user_step NUM ev (ShopperUser pc) s =
     (case shopper_step ev pc s of (pc', s') \<Rightarrow> (ShopperUser pc', s'))"

definition schedule_step :: "int \<Rightarrow> nat \<times> event \<Rightarrow> user list \<times> SharedState \<Rightarrow> user list \<times> SharedState" where
  "schedule_step NUM e cfg =
     (case (e, cfg) of
        ((i, ev), (us, s)) \<Rightarrow>
          if i < length us then
            (case user_step NUM ev (us ! i) s of (u', s') \<Rightarrow> (us[i := u'], s'))
          else (us, s))"

fun run_schedule :: "int \<Rightarrow> (nat \<times> event) list \<Rightarrow> user list \<times> SharedState \<Rightarrow> user list \<times> SharedState" where
  "run_schedule NUM [] cfg = cfg"
| "run_schedule NUM (e # es) cfg = run_schedule NUM es (schedule_step NUM e cfg)"

definition initial_config :: "nat \<Rightarrow> nat \<Rightarrow> user list \<times> SharedState" where
  "initial_config n m =
     (replicate n (ProductSetupUser AtTask) @ replicate m (ShopperUser Constructing),
      SharedState_init)"

definition needs_product :: "user \<Rightarrow> bool" where
  "needs_product u =
     (u = ProductSetupUser Counting \<or> u = ProductSetupUser Marking \<or> u = ShopperUser Completing)"

definition protocol_inv :: "int \<Rightarrow> user list \<times> SharedState \<Rightarrow> bool" where
  "protocol_inv NUM cfg =
     (case cfg of (us, s) \<Rightarrow>
        (setup_complete s \<longrightarrow> product_ids s \<noteq> [])
        \<and> (\<forall>u \<in> set us. needs_product u \<longrightarrow> product_ids s \<noteq> [])
        \<and> (ProductSetupUser Marking \<in> set us \<longrightarrow> NUM \<le> get_product_count s))"

text \<open>
  A schedule with a target of two products: the setup user creates product 7 and finds the
  count (1) below the target; then the shopper starts, sees the flag unset and one
  product, and is about to mark the setup complete.
\<close>

definition first_product_schedule :: "(nat \<times> event) list" where
  "first_product_schedule =
     [(0, Tick),
      (0, Answer \<lparr>status_code = 201, payload = Object [(''product_id'', 7)]\<rparr>),
      (0, Tick), (0, Tick), (1, Tick), (1, Tick), (1, Tick)]"

section \<open>analysis/compare_results.py: the summary table\<close>

subsection \<open>Binary64 floating-point numbers\<close>

text \<open>
  The statistics are read by pandas, so a numeric cell is a 64-bit integer or a binary64
  float, and the arithmetic of \<^verbatim>\<open>create_summary\<close> is binary64 arithmetic. A float is its
  sign and its magnitude, an infinity, or NaN; \<open>Finite True 0\<close> is the negative zero. An
  operation on finite floats is the exact operation on the rationals followed by the
  rounding to the nearest float, ties to the even significand: the floats around a
  magnitude \<open>m\<close> with \<open>2 ^ k \<le> m < 2 ^ (k + 1)\<close> are the multiples of \<open>2 ^ (k - 52)\<close>,
  or of \<open>2 ^ -1074\<close> in the subnormal range, and a result that rounds to \<open>2 ^ 1024\<close> or
  more is an infinity.
\<close>

datatype f64 = Finite bool rat | Infinity bool | NaN

function pow2_nat :: "int \<Rightarrow> rat" where
  "pow2_nat e = (if e \<le> 0 then 1 else 2 * pow2_nat (e - 1))"
  by pat_completeness auto
termination
  by (relation "measure nat") auto

declare pow2_nat.simps [simp del]

definition pow2 :: "int \<Rightarrow> rat" where
  "pow2 e = (if 0 \<le> e then pow2_nat e else 1 / pow2_nat (- e))"

function bit_length :: "int \<Rightarrow> int" where
  "bit_length n = (if n \<le> 0 then 0 else 1 + bit_length (n div 2))"
  by pat_completeness auto
termination
  by (relation "measure nat") auto

declare bit_length.simps [simp del]

text \<open>The \<open>k\<close> with \<open>2 ^ k \<le> x < 2 ^ (k + 1)\<close>, for \<open>x > 0\<close>.\<close>

definition floor_log2 :: "rat \<Rightarrow> int" where
  "floor_log2 x =
     (if 1 \<le> x then bit_length \<lfloor>x\<rfloor> - 1 else - bit_length (\<lceil>1 / x\<rceil> - 1))"

definition round_half_even :: "rat \<Rightarrow> int" where
  "round_half_even x =
     (let f = \<lfloor>x\<rfloor>; d = x - of_int f
      in if d < 1 / 2 then f else if 1 / 2 < d then f + 1 else if even f then f else f + 1)"

definition round_magnitude :: "rat \<Rightarrow> rat" where
  "round_magnitude m =
     (if m = 0 then 0
      else (let e = max (floor_log2 m - 52) (- 1074)
            in of_int (round_half_even (m / pow2 e)) * pow2 e))"

text \<open>The float nearest to the number of sign \<open>s\<close> and magnitude \<open>m\<close>.\<close>

definition round_to :: "bool \<Rightarrow> rat \<Rightarrow> f64" where
  "round_to s m =
     (let r = round_magnitude m
      in if r \<noteq> 0 \<and> 1024 \<le> floor_log2 r then Infinity s else Finite s r)"

definition signed :: "bool \<Rightarrow> rat \<Rightarrow> rat" where
  "signed s m = (if s then - m else m)"

definition of_integer :: "int \<Rightarrow> f64" where
  "of_integer n = round_to (n < 0) (of_int \<bar>n\<bar>)"

fun f_neg :: "f64 \<Rightarrow> f64" where
  "f_neg (Finite s a) = Finite (\<not> s) a"
| "f_neg (Infinity s) = Infinity (\<not> s)"
| "f_neg NaN = NaN"

fun f_add :: "f64 \<Rightarrow> f64 \<Rightarrow> f64" where
  "f_add (Finite s a) (Finite t b) =
     (let v = signed s a + signed t b
      in if v = 0 then Finite (s \<and> t) 0 else round_to (v < 0) \<bar>v\<bar>)"
| "f_add (Infinity s) (Infinity t) = (if s = t then Infinity s else NaN)"
| "f_add (Infinity s) (Finite t b) = Infinity s"
| "f_add (Finite s a) (Infinity t) = Infinity t"
| "f_add NaN y = NaN"
| "f_add x NaN = NaN"

definition f_sub :: "f64 \<Rightarrow> f64 \<Rightarrow> f64" where
  "f_sub x y = f_add x (f_neg y)"

fun f_mul :: "f64 \<Rightarrow> f64 \<Rightarrow> f64" where
  "f_mul (Finite s a) (Finite t b) = round_to (s \<noteq> t) (a * b)"
| "f_mul (Infinity s) (Finite t b) = (if b = 0 then NaN else Infinity (s \<noteq> t))"
| "f_mul (Finite s a) (Infinity t) = (if a = 0 then NaN else Infinity (s \<noteq> t))"
| "f_mul (Infinity s) (Infinity t) = Infinity (s \<noteq> t)"
| "f_mul NaN y = NaN"
| "f_mul x NaN = NaN"

text \<open>The quotient by a divisor that is not zero.\<close>

fun f_quot :: "f64 \<Rightarrow> f64 \<Rightarrow> f64" where
  "f_quot (Finite s a) (Finite t b) = round_to (s \<noteq> t) (a / b)"
| "f_quot (Infinity s) (Finite t b) = Infinity (s \<noteq> t)"
| "f_quot (Finite s a) (Infinity t) = Finite (s \<noteq> t) 0"
| "f_quot (Infinity s) (Infinity t) = NaN"
| "f_quot NaN y = NaN"
| "f_quot x NaN = NaN"

fun is_zero :: "f64 \<Rightarrow> bool" where
  "is_zero (Finite s a) = (a = 0)"
| "is_zero (Infinity s) = False"
| "is_zero NaN = False"

datatype py_error = ZeroDivisionError | IndexError | ValueError | OverflowError

text \<open>
  \<^verbatim>\<open>a / b\<close>. A zero divisor raises \<^verbatim>\<open>ZeroDivisionError\<close> on Python numbers and gives an
  infinity or NaN, with a warning, on numpy's; both are the error here.
\<close>

definition f_div :: "f64 \<Rightarrow> f64 \<Rightarrow> py_error + f64" where
  "f_div x y = (if is_zero y then Inl ZeroDivisionError else Inr (f_quot x y))"

text \<open>\<^verbatim>\<open>numpy.rint\<close>: the nearest integer, ties to even, with the sign of the argument.\<close>

fun f_rint :: "f64 \<Rightarrow> f64" where
  "f_rint (Finite s a) = Finite s (of_int (round_half_even a))"
| "f_rint x = x"

text \<open>
  \<^verbatim>\<open>round(x, 2)\<close> on a numpy float: multiply by 100, round to the nearest integer, divide by
  100. Python's own \<^verbatim>\<open>round\<close> is only ever applied to the float 0.0 (both counts absent),
  where it gives 0.0 as well.
\<close>

definition np_round2 :: "f64 \<Rightarrow> f64" where
  "np_round2 x = f_quot (f_rint (f_mul x (Finite False 100))) (Finite False 100)"

text \<open>\<^verbatim>\<open>1 > x\<close>, false on NaN.\<close>

fun one_greater :: "f64 \<Rightarrow> bool" where
  "one_greater (Finite s a) = (signed s a < 1)"
| "one_greater (Infinity s) = s"
| "one_greater NaN = False"

text \<open>
  \<^verbatim>\<open>int(x)\<close> truncates towards zero, and raises on NaN and on an infinity.
\<close>

fun py_int :: "f64 \<Rightarrow> py_error + int" where
  "py_int (Finite s a) = Inr (if s then - \<lfloor>a\<rfloor> else \<lfloor>a\<rfloor>)"
| "py_int (Infinity s) = Inl OverflowError"
| "py_int NaN = Inl ValueError"

text \<open>
  The format \<^verbatim>\<open>{diff:+.1f}\<close>: a sign, always (the minus of a negative zero too); the
  magnitude rounded to one decimal (the decimal nearest to the exact value of the float,
  ties to even), as its integer digits, a point and one digit.
\<close>

function digits :: "int \<Rightarrow> string" where
  "digits n =
     (if n < 10 then [''0123456789'' ! nat n]
      else digits (n div 10) @ [''0123456789'' ! nat (n mod 10)])"
  by pat_completeness auto
termination
  by (relation "measure nat") auto

declare digits.simps [simp del]

fun format_signed_1f :: "f64 \<Rightarrow> string" where
  "format_signed_1f (Finite s a) =
     (let n = round_half_even (a * 10)
      in (if s then ''-'' else ''+'') @ digits (n div 10) @ ''.'' @ digits (n mod 10))"
| "format_signed_1f (Infinity s) = (if s then ''-inf'' else ''+inf'')"
| "format_signed_1f NaN = ''+nan''"

subsection \<open>Cells, rows, and the table\<close>

text \<open>
  A numeric value of the script: an integer (a cell of an integer column, or a Python
  \<^verbatim>\<open>int\<close>) or a float. A row of a statistics file is its \<^verbatim>\<open>Name\<close> (\<open>None\<close> when the file
  has no such column) and its numeric cells by column name; an empty cell of a column that
  is present is the float NaN. A DataFrame is the list of its rows.
\<close>

datatype cell = Integer int | Float f64

fun to_f64 :: "cell \<Rightarrow> f64" where
  "to_f64 (Integer n) = of_integer n"
| "to_f64 (Float x) = x"

record stats_row =
  Name :: "string option"
  cells :: "(string \<times> cell) list"

definition get_aggregated_row :: "stats_row list \<Rightarrow> py_error + stats_row" where
  "get_aggregated_row df =
     (case filter (\<lambda>r. Name r = Some ''Aggregated'') df of
        r # agg_rows \<Rightarrow> Inr r
      | [] \<Rightarrow> if df = [] then Inl IndexError else Inr (last df))"

definition safe_get :: "stats_row \<Rightarrow> string \<Rightarrow> cell" where
  "safe_get row key = (case map_of (cells row) key of Some v \<Rightarrow> v | None \<Rightarrow> Integer 0)"

text \<open>\<^verbatim>\<open>int(v)\<close>, \<^verbatim>\<open>max(v, 1)\<close> (which is \<^verbatim>\<open>v\<close> unless \<^verbatim>\<open>1 > v\<close>), \<^verbatim>\<open>a / b\<close> and \<^verbatim>\<open>round(v, 2)\<close>
  (which leaves an integer as it is) on these values.\<close>

fun int_of :: "cell \<Rightarrow> py_error + int" where
  "int_of (Integer n) = Inr n"
| "int_of (Float x) = py_int x"

fun max_1 :: "cell \<Rightarrow> cell" where
  "max_1 (Integer n) = (if 1 > n then Integer 1 else Integer n)"
| "max_1 (Float x) = (if one_greater x then Integer 1 else Float x)"

definition true_div :: "cell \<Rightarrow> cell \<Rightarrow> py_error + f64" where
  "true_div a b = f_div (to_f64 a) (to_f64 b)"

fun round_2 :: "cell \<Rightarrow> cell" where
  "round_2 (Integer n) = Integer n"
| "round_2 (Float x) = Float (np_round2 x)"

definition calc_diff :: "f64 \<Rightarrow> f64 \<Rightarrow> py_error + string" where
  "calc_diff ls_val aws_val =
     (if is_zero ls_val then Inr ''N/A''
      else
        (case f_div (f_sub aws_val ls_val) ls_val of
           Inl e \<Rightarrow> Inl e
         | Inr q \<Rightarrow> Inr (format_signed_1f (f_mul q (Finite False 100)) @ ''%'')))"

text \<open>
  The expression of lines 108 and 118, and the list of the eight values of a column (lines
  105-114 for LocalStack, 115-124 for AWS: the same code on the other row), evaluated in
  the order of the list.
\<close>

definition failure_rate :: "stats_row \<Rightarrow> py_error + f64" where
  "failure_rate row =
     (case true_div (safe_get row ''Failure Count'') (max_1 (safe_get row ''Request Count'')) of
        Inl e \<Rightarrow> Inl e
      | Inr q \<Rightarrow> Inr (np_round2 (f_mul q (Finite False 100))))"

definition summary_column :: "stats_row \<Rightarrow> py_error + cell list" where
  "summary_column row =
     (case int_of (safe_get row ''Request Count'') of
        Inl e \<Rightarrow> Inl e
      | Inr requests \<Rightarrow>
          (case int_of (safe_get row ''Failure Count'') of
             Inl e \<Rightarrow> Inl e
           | Inr failures \<Rightarrow>
               (case failure_rate row of
                  Inl e \<Rightarrow> Inl e
                | Inr rate \<Rightarrow>
                    Inr [Integer requests,
                         Integer failures,
                         Float rate,
                         round_2 (safe_get row ''Average Response Time''),
                         round_2 (safe_get row ''Median Response Time''),
                         round_2 (safe_get row ''95%''),
                         round_2 (safe_get row ''99%''),
                         round_2 (safe_get row ''Requests/s'')])))"

definition Metric :: "string list" where
  "Metric =
     [''Total Requests'', ''Failed Requests'', ''Failure Rate (%)'',
      ''Avg Response Time (ms)'', ''Median Response Time (ms)'',
      ''P95 Response Time (ms)'', ''P99 Response Time (ms)'', ''Requests/sec (RPS)'']"

text \<open>
  \<^verbatim>\<open>pd.DataFrame(summary_data)\<close> stores a list of integers and floats as a float column:
  the third value is always a float, and the integers are counts, which fit 64 bits. The
  entries read back from the column are numpy floats.
\<close>

definition float_column :: "cell list \<Rightarrow> cell list" where
  "float_column vs = map (\<lambda>v. Float (to_f64 v)) vs"

text \<open>
  Line 130: \<^verbatim>\<open>isinstance(v, (int, float))\<close> holds of a Python \<^verbatim>\<open>int\<close> and of a float, numpy's
  included, and not of a numpy integer; the entries of a float column pass it.
\<close>

fun difference :: "cell \<times> cell \<Rightarrow> py_error + string" where
  "difference (Float ls_val, aws_val) = calc_diff ls_val (to_f64 aws_val)"
| "difference (Integer n, aws_val) = Inr ''N/A''"

fun differences :: "(cell \<times> cell) list \<Rightarrow> py_error + string list" where
  "differences [] = Inr []"
| "differences (v # vs) =
     (case difference v of
        Inl e \<Rightarrow> Inl e
      | Inr d \<Rightarrow> (case differences vs of Inl e \<Rightarrow> Inl e | Inr ds \<Rightarrow> Inr (d # ds)))"

text \<open>The table as its rows: metric, LocalStack, AWS, Difference.\<close>

definition create_summary ::
  "stats_row list \<Rightarrow> stats_row list \<Rightarrow> py_error + (string \<times> cell \<times> cell \<times> string) list" where
  "create_summary localstack_stats aws_stats =
     (case get_aggregated_row localstack_stats of
        Inl e \<Rightarrow> Inl e
      | Inr ls \<Rightarrow>
          (case get_aggregated_row aws_stats of
             Inl e \<Rightarrow> Inl e
           | Inr aws \<Rightarrow>
               (case summary_column ls of
                  Inl e \<Rightarrow> Inl e
                | Inr ls_values \<Rightarrow>
                    (case summary_column aws of
                       Inl e \<Rightarrow> Inl e
                     | Inr aws_values \<Rightarrow>
                         (let LocalStack = float_column ls_values;
                              AWS = float_column aws_values
                          in case differences (zip LocalStack AWS) of
                               Inl e \<Rightarrow> Inl e
                             | Inr Difference \<Rightarrow>
                                 Inr (zip Metric (zip LocalStack (zip AWS Difference))))))))"

text \<open>
  What the statements below say of a cell: that it holds the number \<open>n\<close>, as an integer or
  as a float; that it is zero (\<^verbatim>\<open>v == 0\<close>); that it is a number, not NaN nor an infinity.
\<close>

definition cell_holds :: "cell \<Rightarrow> int \<Rightarrow> bool" where
  "cell_holds c n = (c = Integer n \<or> c = Float (Finite False (of_int n)))"


fun finite_cell :: "cell \<Rightarrow> bool" where
  "finite_cell (Integer n) = True"
| "finite_cell (Float (Finite s a)) = True"
| "finite_cell (Float (Infinity s)) = False"
| "finite_cell (Float NaN) = False"

section \<open>Properties of SharedState\<close>

lemma final_Nil: "final [] s = s"
  by (simp add: final_def)

lemma final_Cons: "final (c # cs) s = final cs (snd (perform c s))"
  by (simp add: final_def split: prod.splits)

lemma final_append: "final (cs @ ds) s = final ds (final cs s)"
  by (induction cs arbitrary: s) (simp_all add: final_Nil final_Cons)

lemma returned_Nil: "returned c [] s = []"
  by (simp add: returned_def)

lemma returned_Cons:
  "returned c (d # ds) s =
     (if d = c then [fst (perform d s)] else []) @ returned c ds (snd (perform d s))"
  by (simp add: returned_def split: prod.splits)

lemma customer_id_counter_perform:
  "customer_id_counter (snd (perform c s)) =
     customer_id_counter s + (if c = GetNextCustomerId then 1 else 0)"
  by (cases c)
     (simp_all add: add_product_def mark_setup_complete_def increment_checkout_def
        increment_declined_def get_next_customer_id_def Let_def)

lemma returned_customer_ids:
  "returned GetNextCustomerId cs s =
     map RInt [customer_id_counter s ..
               customer_id_counter s + int (calls_of GetNextCustomerId cs) - 1]"
proof (induction cs arbitrary: s)
  case Nil
  show ?case by (simp add: returned_Nil calls_of_def)
next
  case (Cons d ds)
  show ?case
  proof (cases "d = GetNextCustomerId")
    case True
    have "[customer_id_counter s ..
            customer_id_counter s + int (calls_of GetNextCustomerId (d # ds)) - 1]
          = customer_id_counter s #
            [customer_id_counter s + 1 ..
             customer_id_counter s + 1 + int (calls_of GetNextCustomerId ds) - 1]"
      using True by (subst upto_rec1) (simp_all add: calls_of_def)
    then show ?thesis
      using True Cons.IH [of "snd (perform d s)"]
      by (simp add: returned_Cons customer_id_counter_perform get_next_customer_id_def)
  next
    case False
    then show ?thesis
      using Cons.IH [of "snd (perform d s)"]
      by (simp add: returned_Cons customer_id_counter_perform calls_of_def)
  qed
qed

text \<open>
  C1. Starting from a freshly constructed SharedState, the values returned by the calls of
  \<^verbatim>\<open>get_next_customer_id\<close> in any run, whatever other calls are interleaved, are
  1, 2, ..., N in this order, where N is the number of such calls: the first call returns
  1, each call returns the counter before its increment, no value is repeated and none
  is skipped. In particular this holds for the run that consists of N such calls.
\<close>

theorem C1_customer_ids_unique:
  "returned GetNextCustomerId cs SharedState_init
     = map RInt [1 .. int (calls_of GetNextCustomerId cs)]
   \<and> distinct (returned GetNextCustomerId cs SharedState_init)
   \<and> set (returned GetNextCustomerId cs SharedState_init)
     = RInt ` {1 .. int (calls_of GetNextCustomerId cs)}
   \<and> returned GetNextCustomerId (replicate N GetNextCustomerId) SharedState_init
     = map RInt [1 .. int N]
   \<and> fst (get_next_customer_id s) = customer_id_counter s
   \<and> customer_id_counter (snd (get_next_customer_id s)) = customer_id_counter s + 1
   \<and> fst (get_next_customer_id SharedState_init) = 1"
proof -
  have eq: "returned GetNextCustomerId ds SharedState_init
              = map RInt [1 .. int (calls_of GetNextCustomerId ds)]" for ds
    using returned_customer_ids [of ds SharedState_init]
    by (simp add: SharedState_init_def)
  have inj: "inj_on RInt A" for A
    by (simp add: inj_on_def)
  have rep: "calls_of GetNextCustomerId (replicate N GetNextCustomerId) = N"
    by (simp add: calls_of_def)
  show ?thesis
    using eq [of cs] eq [of "replicate N GetNextCustomerId"] rep
    by (simp add: distinct_map inj get_next_customer_id_def Let_def SharedState_init_def)
qed

lemma setup_complete_perform:
  "setup_complete (snd (perform c s)) = (setup_complete s \<or> c = MarkSetupComplete)"
  by (cases c)
     (simp_all add: add_product_def mark_setup_complete_def increment_checkout_def
        increment_declined_def get_next_customer_id_def Let_def)

lemma setup_complete_final:
  "setup_complete (final cs s) = (setup_complete s \<or> MarkSetupComplete \<in> set cs)"
  by (induction cs arbitrary: s) (auto simp: final_Nil final_Cons setup_complete_perform)

lemma mark_setup_complete_twice:
  "mark_setup_complete (mark_setup_complete s) = mark_setup_complete s"
  by (simp add: mark_setup_complete_def)

lemma mark_setup_complete_funpow:
  "(mark_setup_complete ^^ Suc n) s = mark_setup_complete s"
  by (induction n) (simp_all add: mark_setup_complete_twice)

lemma final_replicate_mark:
  "final (replicate n MarkSetupComplete) s = (mark_setup_complete ^^ n) s"
proof (induction n arbitrary: s)
  case 0
  show ?case by (simp add: final_Nil)
next
  case (Suc n)
  have "final (replicate (Suc n) MarkSetupComplete) s
          = final (replicate n MarkSetupComplete) (mark_setup_complete s)"
    by (simp add: final_Cons)
  also have "\<dots> = (mark_setup_complete ^^ n) (mark_setup_complete s)"
    by (rule Suc.IH)
  also have "\<dots> = (mark_setup_complete ^^ Suc n) s"
    by (simp add: funpow_swap1)
  finally show ?case .
qed

text \<open>
  C5. \<^verbatim>\<open>mark_setup_complete\<close> is idempotent: N \<ge> 1 calls leave the same state as one
  call, so every later run of calls returns the same values and ends in the same state;
  each of the calls returns nothing. The flag is monotone: once \<^verbatim>\<open>is_setup_complete\<close>
  is true in a state, it is true after every further sequence of calls.
\<close>

theorem C5_mark_setup_complete_idempotent_monotone:
  "mark_setup_complete (mark_setup_complete s) = mark_setup_complete s
   \<and> (1 \<le> n \<longrightarrow> (mark_setup_complete ^^ n) s = mark_setup_complete s)
   \<and> (1 \<le> n \<longrightarrow> final (replicate n MarkSetupComplete) s = final [MarkSetupComplete] s)
   \<and> (1 \<le> n \<longrightarrow> run cs (final (replicate n MarkSetupComplete) s)
                     = run cs (final [MarkSetupComplete] s))
   \<and> set (returned MarkSetupComplete (replicate n MarkSetupComplete) s) \<subseteq> {RNone}
   \<and> (is_setup_complete (final cs s) \<longrightarrow> is_setup_complete (final (cs @ ds) s))"
proof -
  have pow: "(mark_setup_complete ^^ n) s = mark_setup_complete s" if "1 \<le> n"
  proof -
    from that obtain m where "n = Suc m" by (cases n) auto
    then show ?thesis by (simp only: mark_setup_complete_funpow)
  qed
  have one: "final [MarkSetupComplete] s = mark_setup_complete s"
    by (simp add: final_Cons final_Nil)
  have rep: "final (replicate n MarkSetupComplete) s = final [MarkSetupComplete] s"
    if "1 \<le> n"
    using that pow by (simp only: final_replicate_mark one)
  have ret: "set (returned MarkSetupComplete (replicate n MarkSetupComplete) t) \<subseteq> {RNone}"
    for t
    by (induction n arbitrary: t) (simp_all add: returned_Nil returned_Cons)
  have mono: "is_setup_complete (final (cs @ ds) s)" if "is_setup_complete (final cs s)"
    using that by (simp add: is_setup_complete_def final_append setup_complete_final)
  show ?thesis
    using pow rep ret mono by (simp add: mark_setup_complete_twice)
qed

theorem C5_witness:
  "(mark_setup_complete ^^ 3) SharedState_init = mark_setup_complete SharedState_init
   \<and> final (replicate 3 MarkSetupComplete) SharedState_init
       = final [MarkSetupComplete] SharedState_init
   \<and> is_setup_complete (final [MarkSetupComplete] SharedState_init)
   \<and> is_setup_complete
       (final ([MarkSetupComplete] @ [AddProduct 7, IncrementCheckout, GetNextCustomerId])
          SharedState_init)"
proof -
  have h: "is_setup_complete (final [MarkSetupComplete] SharedState_init)"
    by (simp add: is_setup_complete_def final_Cons final_Nil mark_setup_complete_def)
  show ?thesis
    using h
      C5_mark_setup_complete_idempotent_monotone
        [of SharedState_init 3 "[]" "[MarkSetupComplete]"]
      C5_mark_setup_complete_idempotent_monotone
        [of SharedState_init 3 "[MarkSetupComplete]"
            "[AddProduct 7, IncrementCheckout, GetNextCustomerId]"]
    by simp
qed

lemma product_ids_perform:
  "product_ids (snd (perform c s)) = product_ids s @ added [c]"
  by (cases c)
     (simp_all add: added_def add_product_def mark_setup_complete_def increment_checkout_def
        increment_declined_def get_next_customer_id_def Let_def)

lemma added_Cons: "added (c # cs) = added [c] @ added cs"
  by (simp add: added_def)

lemma product_ids_final: "product_ids (final cs s) = product_ids s @ added cs"
proof (induction cs arbitrary: s)
  case Nil
  show ?case by (simp add: final_Nil added_def)
next
  case (Cons c cs)
  have "product_ids (final (c # cs) s) = (product_ids s @ added [c]) @ added cs"
    by (simp only: final_Cons Cons.IH product_ids_perform)
  then show ?case by (simp add: added_Cons [of c cs])
qed

lemma random_choice_mem: "seq \<noteq> [] \<Longrightarrow> random_choice draw seq \<in> set seq"
  by (simp add: random_choice_def)

text \<open>
  C6. In every state, \<^verbatim>\<open>get_random_product\<close> returns \<^verbatim>\<open>None\<close> exactly when the product
  list is empty, and otherwise an element of the current list. In a state reached from a
  fresh instance the current list is the list of the arguments of the \<^verbatim>\<open>add_product\<close>
  calls made so far, so a returned product was passed to \<^verbatim>\<open>add_product\<close> before.
\<close>

theorem C6_get_random_product:
  "(get_random_product draw s = None \<longleftrightarrow> product_ids s = [])
   \<and> (\<forall>p. get_random_product draw s = Some p \<longrightarrow> p \<in> set (product_ids s))
   \<and> product_ids (final cs SharedState_init) = added cs
   \<and> (\<forall>p. get_random_product draw (final cs SharedState_init) = Some p
          \<longrightarrow> AddProduct p \<in> set cs)"
proof -
  have a: "get_random_product draw t = None \<longleftrightarrow> product_ids t = []" for t
    by (simp add: get_random_product_def)
  have b: "p \<in> set (product_ids t)" if "get_random_product draw t = Some p" for p t
    using that random_choice_mem [of "product_ids t" draw]
    by (auto simp: get_random_product_def split: if_splits)
  have c: "product_ids (final cs SharedState_init) = added cs"
    by (simp add: product_ids_final SharedState_init_def)
  have d: "AddProduct p \<in> set cs" if "p \<in> set (added cs)" for p
    using that by (auto simp: added_def split: call.splits)
  show ?thesis
    using a [of s] b [of s] b [of "final cs SharedState_init"] c d by auto
qed

theorem C6_witness:
  "get_random_product 5 (final [AddProduct 7, MarkSetupComplete, AddProduct 9] SharedState_init)
     = Some 9
   \<and> 9 \<in> set (product_ids (final [AddProduct 7, MarkSetupComplete, AddProduct 9]
                               SharedState_init))
   \<and> AddProduct 9 \<in> set [AddProduct 7, MarkSetupComplete, AddProduct 9]
   \<and> get_random_product 5 SharedState_init = None"
proof -
  have h: "get_random_product 5
             (final [AddProduct 7, MarkSetupComplete, AddProduct 9] SharedState_init) = Some 9"
    by code_simp
  have e: "get_random_product 5 SharedState_init = None"
    by (simp add: get_random_product_def SharedState_init_def)
  show ?thesis
    using h e
      C6_get_random_product
        [of 5 "final [AddProduct 7, MarkSetupComplete, AddProduct 9] SharedState_init"
            "[AddProduct 7, MarkSetupComplete, AddProduct 9]"]
    by (simp add: added_def)
qed

lemma checkout_count_perform:
  "checkout_count (snd (perform c s)) =
     checkout_count s + (if c = IncrementCheckout then 1 else 0)"
  by (cases c)
     (simp_all add: add_product_def mark_setup_complete_def increment_checkout_def
        increment_declined_def get_next_customer_id_def Let_def)

lemma declined_count_perform:
  "declined_count (snd (perform c s)) =
     declined_count s + (if c = IncrementDeclined then 1 else 0)"
  by (cases c)
     (simp_all add: add_product_def mark_setup_complete_def increment_checkout_def
        increment_declined_def get_next_customer_id_def Let_def)

lemma calls_of_Cons: "calls_of c (d # ds) = (if d = c then 1 else 0) + calls_of c ds"
  by (simp add: calls_of_def)

lemma counter_final:
  assumes step: "\<And>d t. f (snd (perform d t)) = f t + (if d = c then 1 else 0)"
  shows "f (final cs s) = f s + int (calls_of c cs)"
proof (induction cs arbitrary: s)
  case Nil
  show ?case by (simp add: final_Nil calls_of_def)
next
  case (Cons d ds)
  have "f (final (d # ds) s) = f (snd (perform d s)) + int (calls_of c ds)"
    by (simp only: final_Cons Cons.IH)
  then show ?case
    by (simp add: step calls_of_Cons)
qed

lemma returned_counter:
  assumes step: "\<And>d t. f (snd (perform d t)) = f t + (if d = c then 1 else 0)"
    and ret: "\<And>t. fst (perform c t) = RInt (f t + 1)"
  shows "returned c cs s = map RInt [f s + 1 .. f s + int (calls_of c cs)]"
proof (induction cs arbitrary: s)
  case Nil
  show ?case by (simp add: returned_Nil calls_of_def)
next
  case (Cons d ds)
  show ?case
  proof (cases "d = c")
    case True
    have "[f s + 1 .. f s + int (calls_of c (d # ds))]
            = (f s + 1) # [f s + 1 + 1 .. f s + 1 + int (calls_of c ds)]"
      using True by (subst upto_rec1) (simp_all add: calls_of_Cons add.assoc)
    then show ?thesis
      using True Cons.IH [of "snd (perform d s)"]
      by (simp add: returned_Cons step ret)
  next
    case False
    then show ?thesis
      using Cons.IH [of "snd (perform d s)"]
      by (simp add: returned_Cons step calls_of_Cons)
  qed
qed

lemma length_added: "length (added cs) = length (filter (\<lambda>c. \<exists>p. c = AddProduct p) cs)"
  by (induction cs) (auto simp: added_def split: call.splits)

text \<open>
  C7. After any sequence of calls on a fresh instance, \<^verbatim>\<open>get_product_count\<close> is the number
  of \<^verbatim>\<open>add_product\<close> calls in the sequence, and \<^verbatim>\<open>get_checkout_count\<close> and
  \<^verbatim>\<open>get_declined_count\<close> are the numbers of \<^verbatim>\<open>increment_checkout\<close> and
  \<^verbatim>\<open>increment_declined\<close> calls. Each increment returns the new value of its counter, so
  the k-th increment returns k. The three quantities are never negative, and none of them
  decreases when the sequence is extended.
\<close>

theorem C7_counts_match_calls:
  "get_product_count (final cs SharedState_init)
     = int (length (filter (\<lambda>c. \<exists>p. c = AddProduct p) cs))
   \<and> get_checkout_count (final cs SharedState_init) = int (calls_of IncrementCheckout cs)
   \<and> get_declined_count (final cs SharedState_init) = int (calls_of IncrementDeclined cs)
   \<and> returned IncrementCheckout cs SharedState_init
       = map RInt [1 .. int (calls_of IncrementCheckout cs)]
   \<and> returned IncrementDeclined cs SharedState_init
       = map RInt [1 .. int (calls_of IncrementDeclined cs)]
   \<and> fst (increment_checkout s) = get_checkout_count (snd (increment_checkout s))
   \<and> fst (increment_checkout s) = get_checkout_count s + 1
   \<and> fst (increment_declined s) = get_declined_count (snd (increment_declined s))
   \<and> fst (increment_declined s) = get_declined_count s + 1
   \<and> 0 \<le> get_product_count (final cs SharedState_init)
   \<and> 0 \<le> get_checkout_count (final cs SharedState_init)
   \<and> 0 \<le> get_declined_count (final cs SharedState_init)
   \<and> get_product_count (final cs s) \<le> get_product_count (final (cs @ ds) s)
   \<and> get_checkout_count (final cs s) \<le> get_checkout_count (final (cs @ ds) s)
   \<and> get_declined_count (final cs s) \<le> get_declined_count (final (cs @ ds) s)"
proof -
  have prod: "get_product_count (final es t) = get_product_count t + int (length (added es))"
    for es t
    by (simp add: get_product_count_def product_ids_final)
  have chk: "checkout_count (final es t) = checkout_count t + int (calls_of IncrementCheckout es)"
    for es t
    by (rule counter_final) (rule checkout_count_perform)
  have dec: "declined_count (final es t) = declined_count t + int (calls_of IncrementDeclined es)"
    for es t
    by (rule counter_final) (rule declined_count_perform)
  have rchk: "returned IncrementCheckout cs SharedState_init
                = map RInt [checkout_count SharedState_init + 1 ..
                            checkout_count SharedState_init + int (calls_of IncrementCheckout cs)]"
    by (rule returned_counter [where f = checkout_count])
       (simp_all add: checkout_count_perform increment_checkout_def Let_def)
  have rdec: "returned IncrementDeclined cs SharedState_init
                = map RInt [declined_count SharedState_init + 1 ..
                            declined_count SharedState_init + int (calls_of IncrementDeclined cs)]"
    by (rule returned_counter [where f = declined_count])
       (simp_all add: declined_count_perform increment_declined_def Let_def)
  have init: "get_product_count SharedState_init = 0" "checkout_count SharedState_init = 0"
    "declined_count SharedState_init = 0"
    by (simp_all add: SharedState_init_def get_product_count_def)
  have c1: "get_product_count (final cs SharedState_init)
              = int (length (filter (\<lambda>c. \<exists>p. c = AddProduct p) cs))"
    by (simp add: prod init length_added)
  have c2: "get_checkout_count (final cs SharedState_init) = int (calls_of IncrementCheckout cs)"
    by (simp add: get_checkout_count_def chk init)
  have c3: "get_declined_count (final cs SharedState_init) = int (calls_of IncrementDeclined cs)"
    by (simp add: get_declined_count_def dec init)
  have c4: "returned IncrementCheckout cs SharedState_init
              = map RInt [1 .. int (calls_of IncrementCheckout cs)]"
    using rchk by (simp add: init)
  have c5: "returned IncrementDeclined cs SharedState_init
              = map RInt [1 .. int (calls_of IncrementDeclined cs)]"
    using rdec by (simp add: init)
  have c6: "fst (increment_checkout s) = get_checkout_count (snd (increment_checkout s))"
    "fst (increment_checkout s) = get_checkout_count s + 1"
    "fst (increment_declined s) = get_declined_count (snd (increment_declined s))"
    "fst (increment_declined s) = get_declined_count s + 1"
    by (simp_all add: increment_checkout_def increment_declined_def get_checkout_count_def
          get_declined_count_def Let_def)
  have c7: "0 \<le> get_product_count (final cs SharedState_init)"
    "0 \<le> get_checkout_count (final cs SharedState_init)"
    "0 \<le> get_declined_count (final cs SharedState_init)"
    by (simp_all add: c1 c2 c3)
  have c8: "get_product_count (final cs s) \<le> get_product_count (final (cs @ ds) s)"
    by (simp add: final_append prod [of ds])
  have c9: "get_checkout_count (final cs s) \<le> get_checkout_count (final (cs @ ds) s)"
    by (simp add: get_checkout_count_def final_append chk [of ds])
  have c10: "get_declined_count (final cs s) \<le> get_declined_count (final (cs @ ds) s)"
    by (simp add: get_declined_count_def final_append dec [of ds])
  from c1 c2 c3 c4 c5 c6 c7 c8 c9 c10 show ?thesis
    by (intro conjI)
qed

section \<open>Properties of the callers\<close>

lemma count_where_Nil: "count_where P [] = 0"
  by (simp add: count_where_def)

lemma count_where_Cons: "count_where P (x # xs) = (if P x then 1 else 0) + count_where P xs"
  by (simp add: count_where_def)

lemma ShopperUser_checkout_cart_counts:
  "checkout_count (snd (snd (ShopperUser_checkout_cart c resp s)))
     = checkout_count s + (if answered 200 resp \<and> has_order_id resp then 1 else 0)"
  "declined_count (snd (snd (ShopperUser_checkout_cart c resp s)))
     = declined_count s + (if answered 402 resp then 1 else 0)"
  by (simp_all add: ShopperUser_checkout_cart_def answered_def has_order_id_def
        increment_checkout_def increment_declined_def Let_def split: json.splits)

lemma LocalStackUser_checkout_counts:
  "checkout_count (snd (snd (snd (LocalStackUser_checkout c out s))))
     = checkout_count s + (if returned_with 200 out then 1 else 0)"
  "declined_count (snd (snd (snd (LocalStackUser_checkout c out s))))
     = declined_count s + (if returned_with 402 out then 1 else 0)"
  by (simp_all add: LocalStackUser_checkout_def returned_with_def
        increment_checkout_def increment_declined_def Let_def split: outcome.splits)

lemma ShopperUser_checkouts_counts:
  "checkout_count (ShopperUser_checkouts as s)
     = checkout_count s + count_where (\<lambda>(c, r). answered 200 r \<and> has_order_id r) as"
  "declined_count (ShopperUser_checkouts as s)
     = declined_count s + count_where (\<lambda>(c, r). answered 402 r) as"
proof (induction as arbitrary: s)
  case Nil
  { case 1 show ?case by (simp add: count_where_Nil) }
  { case 2 show ?case by (simp add: count_where_Nil) }
next
  case (Cons a as)
  { case 1 show ?case
      by (cases a) (simp add: Cons.IH ShopperUser_checkout_cart_counts count_where_Cons) }
  { case 2 show ?case
      by (cases a) (simp add: Cons.IH ShopperUser_checkout_cart_counts count_where_Cons) }
qed

lemma LocalStackUser_checkouts_counts:
  "checkout_count (LocalStackUser_checkouts as s)
     = checkout_count s + count_where (\<lambda>(c, out). returned_with 200 out) as"
  "declined_count (LocalStackUser_checkouts as s)
     = declined_count s + count_where (\<lambda>(c, out). returned_with 402 out) as"
proof (induction as arbitrary: s)
  case Nil
  { case 1 show ?case by (simp add: count_where_Nil) }
  { case 2 show ?case by (simp add: count_where_Nil) }
next
  case (Cons a as)
  { case 1 show ?case
      by (cases a) (simp add: Cons.IH LocalStackUser_checkout_counts count_where_Cons) }
  { case 2 show ?case
      by (cases a) (simp add: Cons.IH LocalStackUser_checkout_counts count_where_Cons) }
qed

lemma count_where_disjoint:
  assumes "\<And>r. \<not> (P r \<and> Q r)"
  shows "count_where (\<lambda>(c, r). P r \<or> Q r) xs
           = count_where (\<lambda>(c, r). P r) xs + count_where (\<lambda>(c, r). Q r) xs"
  using assms by (induction xs) (auto simp: count_where_Nil count_where_Cons)

lemma ShopperUser_checkout_cart_unchanged:
  "\<not> (answered 200 resp \<and> has_order_id resp) \<Longrightarrow> \<not> answered 402 resp
     \<Longrightarrow> snd (snd (ShopperUser_checkout_cart c resp s)) = s"
  by (auto simp: ShopperUser_checkout_cart_def answered_def has_order_id_def
        split: json.splits)

lemma LocalStackUser_checkout_unchanged:
  "\<not> returned_with 200 out \<Longrightarrow> \<not> returned_with 402 out
     \<Longrightarrow> snd (snd (snd (LocalStackUser_checkout c out s))) = s"
  by (auto simp: LocalStackUser_checkout_def returned_with_def split: outcome.splits)

text \<open>
  C2, as the code has it. In \<^verbatim>\<open>ShopperUser._checkout_cart\<close> a 200 answer increments
  \<^verbatim>\<open>checkout_count\<close> only when its body is JSON with a non-empty \<^verbatim>\<open>order_id\<close>; a 402
  answer increments \<^verbatim>\<open>declined_count\<close>; so after a run the sum of the two counters is
  the number of attempts answered 402 or answered 200 with an order id. In
  \<^verbatim>\<open>LocalStackUser._checkout\<close> every 200 answer counts, and the sum is the number of
  attempts answered 200 or 402. Every other attempt (another status, an exception of the
  request, a body that does not parse or has no order id) leaves both counters, and the
  whole shared state, as they were.
\<close>

theorem C2_checkout_accounting:
  "get_checkout_count (ShopperUser_checkouts as SharedState_init)
     = count_where (\<lambda>(c, r). answered 200 r \<and> has_order_id r) as
   \<and> get_declined_count (ShopperUser_checkouts as SharedState_init)
     = count_where (\<lambda>(c, r). answered 402 r) as
   \<and> get_checkout_count (ShopperUser_checkouts as SharedState_init)
       + get_declined_count (ShopperUser_checkouts as SharedState_init)
     = count_where (\<lambda>(c, r). (answered 200 r \<and> has_order_id r) \<or> answered 402 r) as
   \<and> get_checkout_count (LocalStackUser_checkouts bs SharedState_init)
     = count_where (\<lambda>(c, out). returned_with 200 out) bs
   \<and> get_declined_count (LocalStackUser_checkouts bs SharedState_init)
     = count_where (\<lambda>(c, out). returned_with 402 out) bs
   \<and> get_checkout_count (LocalStackUser_checkouts bs SharedState_init)
       + get_declined_count (LocalStackUser_checkouts bs SharedState_init)
     = count_where (\<lambda>(c, out). returned_with 200 out \<or> returned_with 402 out) bs
   \<and> (\<not> (answered 200 resp \<and> has_order_id resp) \<and> \<not> answered 402 resp
        \<longrightarrow> snd (snd (ShopperUser_checkout_cart cart_id resp s)) = s)
   \<and> (\<not> returned_with 200 out \<and> \<not> returned_with 402 out
        \<longrightarrow> snd (snd (snd (LocalStackUser_checkout cart_id out s))) = s)"
proof -
  have init: "checkout_count SharedState_init = 0" "declined_count SharedState_init = 0"
    by (simp_all add: SharedState_init_def)
  have a1: "get_checkout_count (ShopperUser_checkouts as SharedState_init)
              = count_where (\<lambda>(c, r). answered 200 r \<and> has_order_id r) as"
    by (simp add: get_checkout_count_def ShopperUser_checkouts_counts init)
  have a2: "get_declined_count (ShopperUser_checkouts as SharedState_init)
              = count_where (\<lambda>(c, r). answered 402 r) as"
    by (simp add: get_declined_count_def ShopperUser_checkouts_counts init)
  have "count_where (\<lambda>(c, r). (answered 200 r \<and> has_order_id r) \<or> answered 402 r) as
          = count_where (\<lambda>(c, r). answered 200 r \<and> has_order_id r) as
            + count_where (\<lambda>(c, r). answered 402 r) as"
    by (rule count_where_disjoint
          [where P = "\<lambda>r. answered 200 r \<and> has_order_id r" and Q = "answered 402"])
       (simp add: answered_def)
  then have a3: "get_checkout_count (ShopperUser_checkouts as SharedState_init)
       + get_declined_count (ShopperUser_checkouts as SharedState_init)
     = count_where (\<lambda>(c, r). (answered 200 r \<and> has_order_id r) \<or> answered 402 r) as"
    using a1 a2 by simp
  have b1: "get_checkout_count (LocalStackUser_checkouts bs SharedState_init)
              = count_where (\<lambda>(c, out). returned_with 200 out) bs"
    by (simp add: get_checkout_count_def LocalStackUser_checkouts_counts init)
  have b2: "get_declined_count (LocalStackUser_checkouts bs SharedState_init)
              = count_where (\<lambda>(c, out). returned_with 402 out) bs"
    by (simp add: get_declined_count_def LocalStackUser_checkouts_counts init)
  have "count_where (\<lambda>(c, out). returned_with 200 out \<or> returned_with 402 out) bs
          = count_where (\<lambda>(c, out). returned_with 200 out) bs
            + count_where (\<lambda>(c, out). returned_with 402 out) bs"
    by (rule count_where_disjoint [where P = "returned_with 200" and Q = "returned_with 402"])
       (simp add: returned_with_def split: outcome.splits)
  then have b3: "get_checkout_count (LocalStackUser_checkouts bs SharedState_init)
       + get_declined_count (LocalStackUser_checkouts bs SharedState_init)
     = count_where (\<lambda>(c, out). returned_with 200 out \<or> returned_with 402 out) bs"
    using b1 b2 by simp
  from a1 a2 a3 b1 b2 b3 show ?thesis
    using ShopperUser_checkout_cart_unchanged [of resp cart_id s]
      LocalStackUser_checkout_unchanged [of out cart_id s]
    by blast
qed

text \<open>
  A run of four attempts: answered 200 with an order id, 200 with an empty object, 402
  and 500. One checkout and one decline are counted; the attempt answered 500 changes
  nothing.
\<close>

theorem C2_witness:
  "get_checkout_count
     (ShopperUser_checkouts
        [(1, \<lparr>status_code = 200, payload = Object [(''order_id'', 31)]\<rparr>),
         (2, \<lparr>status_code = 200, payload = Object []\<rparr>),
         (3, \<lparr>status_code = 402, payload = NotJson\<rparr>),
         (4, \<lparr>status_code = 500, payload = NotJson\<rparr>)] SharedState_init) = 1
   \<and> get_declined_count
     (ShopperUser_checkouts
        [(1, \<lparr>status_code = 200, payload = Object [(''order_id'', 31)]\<rparr>),
         (2, \<lparr>status_code = 200, payload = Object []\<rparr>),
         (3, \<lparr>status_code = 402, payload = NotJson\<rparr>),
         (4, \<lparr>status_code = 500, payload = NotJson\<rparr>)] SharedState_init) = 1
   \<and> snd (snd (ShopperUser_checkout_cart 4 \<lparr>status_code = 500, payload = NotJson\<rparr>
                  SharedState_init)) = SharedState_init
   \<and> snd (snd (snd (LocalStackUser_checkout 4 Raises SharedState_init))) = SharedState_init"
proof -
  have h1: "\<not> (answered 200 \<lparr>status_code = 500, payload = NotJson\<rparr>
               \<and> has_order_id \<lparr>status_code = 500, payload = NotJson\<rparr>)
            \<and> \<not> answered 402 \<lparr>status_code = 500, payload = NotJson\<rparr>"
    by (simp add: answered_def)
  have h2: "\<not> returned_with 200 Raises \<and> \<not> returned_with 402 Raises"
    by (simp add: returned_with_def)
  show ?thesis
    using h1 h2
      C2_checkout_accounting
        [of "[(1, \<lparr>status_code = 200, payload = Object [(''order_id'', 31)]\<rparr>),
              (2, \<lparr>status_code = 200, payload = Object []\<rparr>),
              (3, \<lparr>status_code = 402, payload = NotJson\<rparr>),
              (4, \<lparr>status_code = 500, payload = NotJson\<rparr>)]"
            "[]" "\<lparr>status_code = 500, payload = NotJson\<rparr>" 4 SharedState_init Raises]
    by (simp add: count_where_Cons count_where_Nil answered_def has_order_id_def truthy_def)
qed

text \<open>
  C2 as the claim states it fails on \<^verbatim>\<open>ShopperUser._checkout_cart\<close>: one attempt
  answered 200 with a JSON object that has no \<^verbatim>\<open>order_id\<close> is an attempt answered 200
  or 402, and neither counter moves.
\<close>

theorem C2_counterexample:
  "get_checkout_count
     (ShopperUser_checkouts [(1, \<lparr>status_code = 200, payload = Object []\<rparr>)] SharedState_init)
   + get_declined_count
     (ShopperUser_checkouts [(1, \<lparr>status_code = 200, payload = Object []\<rparr>)] SharedState_init)
   \<noteq> count_where (\<lambda>(c, r). answered 200 r \<or> answered 402 r)
       [(1, \<lparr>status_code = 200, payload = Object []\<rparr>)]"
  by (simp add: ShopperUser_checkout_cart_def get_checkout_count_def get_declined_count_def
        SharedState_init_def count_where_def answered_def truthy_def)




lemma ProductSetupUser_create_product_ids:
  "set (product_ids (snd (snd (ProductSetupUser_create_product n resp s))))
     \<subseteq> set (product_ids s) \<union> {p. p \<noteq> 0}"
  by (auto simp: ProductSetupUser_create_product_def add_product_def mark_setup_complete_def
        truthy_def Let_def split: json.splits option.splits if_splits)

text \<open>
  C10. \<^verbatim>\<open>ShopperUser._add_item_to_cart\<close> tests the result of \<^verbatim>\<open>get_random_product\<close>
  for truthiness: when the chosen product id is 0 it returns \<^verbatim>\<open>False\<close> and sends no
  request (and reports nothing), exactly as on an empty product list.
  \<^verbatim>\<open>ProductSetupUser.create_product\<close> reports a 201 answer whose \<^verbatim>\<open>product_id\<close> is 0
  or missing as the failure "No product_id" and leaves the shared state as it was; no
  call of it ever adds the id 0 to the pool.
\<close>

theorem C10_zero_id_is_none:
  "(get_random_product draw s = Some 0 \<longrightarrow>
       ShopperUser_add_item_to_cart draw quantity cart_id resp s = (False, [], []))
   \<and> (product_ids s = [] \<longrightarrow>
       ShopperUser_add_item_to_cart draw quantity cart_id resp s = (False, [], []))
   \<and> (get_product_count s < n \<and> status_code resp = 201 \<and> payload resp = Object d
        \<and> (map_of d ''product_id'' = Some 0 \<or> map_of d ''product_id'' = None) \<longrightarrow>
       ProductSetupUser_create_product n resp s
         = ([PostProduct], [Failure (Text ''No product_id'')], s))
   \<and> (0 \<in> set (product_ids (snd (snd (ProductSetupUser_create_product n resp s))))
        \<longrightarrow> 0 \<in> set (product_ids s))"
proof -
  have a: "ShopperUser_add_item_to_cart draw quantity cart_id resp s = (False, [], [])"
    if "get_random_product draw s = Some 0"
    using that by (simp add: ShopperUser_add_item_to_cart_def truthy_def)
  have b: "ShopperUser_add_item_to_cart draw quantity cart_id resp s = (False, [], [])"
    if "product_ids s = []"
    using that by (simp add: ShopperUser_add_item_to_cart_def get_random_product_def truthy_def)
  have c: "ProductSetupUser_create_product n resp s
             = ([PostProduct], [Failure (Text ''No product_id'')], s)"
    if "get_product_count s < n" "status_code resp = 201" "payload resp = Object d"
      "map_of d ''product_id'' = Some 0 \<or> map_of d ''product_id'' = None"
    using that by (auto simp: ProductSetupUser_create_product_def truthy_def)
  have d: "0 \<in> set (product_ids s)"
    if "0 \<in> set (product_ids (snd (snd (ProductSetupUser_create_product n resp s))))"
    using that ProductSetupUser_create_product_ids [of n resp s] by auto
  from a b c d show ?thesis by blast
qed

text \<open>
  A pool that holds only the id 0, put there by \<^verbatim>\<open>add_product(0)\<close>: adding an item
  sends nothing. A 201 answer with \<^verbatim>\<open>product_id\<close> 0, and one without the field, on a
  fresh state with a target of 100 products: a failure, and an unchanged state.
\<close>

theorem C10_witness:
  "ShopperUser_add_item_to_cart 3 2 9 \<lparr>status_code = 204, payload = NotJson\<rparr>
       (add_product 0 SharedState_init) = (False, [], [])
   \<and> ShopperUser_add_item_to_cart 3 2 9 \<lparr>status_code = 204, payload = NotJson\<rparr>
       SharedState_init = (False, [], [])
   \<and> ProductSetupUser_create_product 100
       \<lparr>status_code = 201, payload = Object [(''product_id'', 0)]\<rparr> SharedState_init
       = ([PostProduct], [Failure (Text ''No product_id'')], SharedState_init)
   \<and> ProductSetupUser_create_product 100
       \<lparr>status_code = 201, payload = Object [(''sku'', 4)]\<rparr> SharedState_init
       = ([PostProduct], [Failure (Text ''No product_id'')], SharedState_init)"
proof -
  have h1: "get_random_product 3 (add_product 0 SharedState_init) = Some 0"
    by (simp add: get_random_product_def random_choice_def add_product_def SharedState_init_def)
  have h2: "product_ids SharedState_init = []"
    by (simp add: SharedState_init_def)
  have h3: "get_product_count SharedState_init < 100"
    by (simp add: get_product_count_def SharedState_init_def)
  show ?thesis
    using h1 h2 h3
      C10_zero_id_is_none
        [of 3 "add_product 0 SharedState_init" 2 9 "\<lparr>status_code = 204, payload = NotJson\<rparr>"]
      C10_zero_id_is_none
        [of 3 SharedState_init 2 9 "\<lparr>status_code = 204, payload = NotJson\<rparr>"]
      C10_zero_id_is_none
        [of 3 SharedState_init 2 9
            "\<lparr>status_code = 201, payload = Object [(''product_id'', 0)]\<rparr>" 100
            "[(''product_id'', 0)]"]
      C10_zero_id_is_none
        [of 3 SharedState_init 2 9
            "\<lparr>status_code = 201, payload = Object [(''sku'', 4)]\<rparr>" 100 "[(''sku'', 4)]"]
    by simp
qed

section \<open>Properties of the setup protocol\<close>

lemma task_call_keeps:
  "task_call c \<Longrightarrow> product_ids (snd (perform c s)) = product_ids s"
  "task_call c \<Longrightarrow> setup_complete (snd (perform c s)) = setup_complete s"
  by (cases c; simp add: task_call_def increment_checkout_def increment_declined_def Let_def)+

lemma shopper_step_keeps:
  "product_ids (snd (shopper_step ev pc s)) = product_ids s"
  "setup_complete (snd (shopper_step ev pc s)) = (setup_complete s \<or> pc = Completing)"
  by (cases pc; cases ev;
      simp add: task_call_keeps mark_setup_complete_def get_next_customer_id_def Let_def)+

lemma shopper_step_Completing:
  "fst (shopper_step ev pc s) = Completing \<Longrightarrow> product_ids s \<noteq> []"
  by (cases pc; cases ev) (auto simp: get_product_count_def split: if_splits)

lemma user_step_inv:
  assumes "setup_complete s \<longrightarrow> product_ids s \<noteq> []"
    and "needs_product u \<longrightarrow> product_ids s \<noteq> []"
    and "u = ProductSetupUser Marking \<longrightarrow> NUM \<le> get_product_count s"
    and "user_step NUM ev u s = (u', s')"
  shows "(setup_complete s' \<longrightarrow> product_ids s' \<noteq> [])
         \<and> (needs_product u' \<longrightarrow> product_ids s' \<noteq> [])
         \<and> (u' = ProductSetupUser Marking \<longrightarrow> NUM \<le> get_product_count s')
         \<and> (product_ids s \<noteq> [] \<longrightarrow> product_ids s' \<noteq> [])
         \<and> get_product_count s \<le> get_product_count s'"
proof (cases u)
  case (ProductSetupUser pc)
  then show ?thesis
    using assms
    by (cases pc; cases ev)
       (auto simp: needs_product_def add_product_def mark_setup_complete_def
          get_product_count_def Let_def split: if_splits json.splits option.splits)
next
  case (ShopperUser pc)
  obtain pc' where st: "shopper_step ev pc s = (pc', s')" and u': "u' = ShopperUser pc'"
    using assms(4) ShopperUser by (auto split: prod.splits)
  have ids: "product_ids s' = product_ids s"
    and flag: "setup_complete s' = (setup_complete s \<or> pc = Completing)"
    using shopper_step_keeps [of ev pc s] st by simp_all
  have comp: "pc' = Completing \<Longrightarrow> product_ids s \<noteq> []"
    using shopper_step_Completing [of ev pc s] st by simp
  show ?thesis
    using assms(1-3) ShopperUser u' ids flag comp
    by (auto simp: needs_product_def get_product_count_def)
qed

lemma schedule_step_inv: "protocol_inv NUM cfg \<Longrightarrow> protocol_inv NUM (schedule_step NUM e cfg)"
proof -
  assume I: "protocol_inv NUM cfg"
  obtain us s where cfg: "cfg = (us, s)" by (cases cfg)
  obtain i ev where e: "e = (i, ev)" by (cases e)
  show ?thesis
  proof (cases "i < length us")
    case False
    then show ?thesis using I by (simp add: schedule_step_def cfg e)
  next
    case True
    obtain u' s' where us: "user_step NUM ev (us ! i) s = (u', s')"
      by (cases "user_step NUM ev (us ! i) s")
    have mem: "us ! i \<in> set us" using True by simp
    have st: "schedule_step NUM e cfg = (us[i := u'], s')"
      using True us by (simp add: schedule_step_def cfg e)
    have pre: "setup_complete s \<longrightarrow> product_ids s \<noteq> []"
      "needs_product (us ! i) \<longrightarrow> product_ids s \<noteq> []"
      "us ! i = ProductSetupUser Marking \<longrightarrow> NUM \<le> get_product_count s"
      using I mem by (auto simp: protocol_inv_def cfg)
    note post = user_step_inv [OF pre us]
    have sub: "set (us[i := u']) \<subseteq> insert u' (set us)"
      by (rule set_update_subset_insert)
    show ?thesis
      unfolding st protocol_inv_def
      using post I sub by (auto simp: protocol_inv_def cfg)
  qed
qed

lemma run_schedule_inv: "protocol_inv NUM cfg \<Longrightarrow> protocol_inv NUM (run_schedule NUM es cfg)"
  by (induction es arbitrary: cfg) (simp_all add: schedule_step_inv)

lemma initial_config_inv: "protocol_inv NUM (initial_config n m)"
  by (auto simp: protocol_inv_def initial_config_def needs_product_def SharedState_init_def)

lemma run_schedule_append:
  "run_schedule NUM (es @ es') cfg = run_schedule NUM es' (run_schedule NUM es cfg)"
  by (induction es arbitrary: cfg) simp_all

lemma setup_step_flag:
  "setup_complete (snd (setup_step NUM ev pc s)) = (setup_complete s \<or> pc = Marking)"
  by (cases pc; cases ev)
     (simp_all add: add_product_def mark_setup_complete_def Let_def
        split: json.splits option.splits)

lemma schedule_step_flag:
  assumes "\<not> setup_complete s" and "setup_complete (snd (schedule_step NUM (i, ev) (us, s)))"
  shows "i < length us \<and> (us ! i = ShopperUser Completing \<or> us ! i = ProductSetupUser Marking)"
proof (cases "i < length us")
  case False
  then show ?thesis using assms by (simp add: schedule_step_def)
next
  case True
  show ?thesis
  proof (cases "us ! i")
    case (ProductSetupUser pc)
    then show ?thesis
      using assms True setup_step_flag [of NUM ev pc s]
      by (auto simp: schedule_step_def split: prod.splits)
  next
    case (ShopperUser pc)
    then show ?thesis
      using assms True shopper_step_keeps(2) [of ev pc s]
      by (auto simp: schedule_step_def split: prod.splits)
  qed
qed

lemma run_schedule_flag_stays:
  "setup_complete (snd cfg) \<Longrightarrow> setup_complete (snd (run_schedule NUM es cfg))"
proof (induction es arbitrary: cfg)
  case Nil
  then show ?case by simp
next
  case (Cons e es)
  obtain i ev us s where e: "e = (i, ev)" and cfg: "cfg = (us, s)"
    by (cases e, cases cfg) auto
  have "setup_complete (snd (schedule_step NUM e cfg))"
  proof (cases "i < length us")
    case False
    then show ?thesis using Cons.prems by (simp add: schedule_step_def e cfg)
  next
    case True
    show ?thesis
    proof (cases "us ! i")
      case (ProductSetupUser pc)
      then show ?thesis
        using Cons.prems True setup_step_flag [of NUM ev pc s]
        by (auto simp: schedule_step_def e cfg split: prod.splits)
    next
      case (ShopperUser pc)
      then show ?thesis
        using Cons.prems True shopper_step_keeps(2) [of ev pc s]
        by (auto simp: schedule_step_def e cfg split: prod.splits)
    qed
  qed
  then show ?case by (simp add: Cons.IH)
qed

text \<open>
  C4. Take any number of setup users and of shoppers, started on a fresh shared state, and
  any schedule of their steps. In the state reached, if \<^verbatim>\<open>is_setup_complete()\<close> is true
  then the product list is not empty, and both stay so under every continuation of the
  schedule. The step that sets the flag is either a shopper's, who saw at least one
  product, or a setup user's, who saw the target count reached (and the count is still at
  least the target); in both cases a product exists when the flag is set.
\<close>

theorem C4_setup_complete_has_products:
  "(is_setup_complete (snd (run_schedule NUM es (initial_config n m)))
      \<longrightarrow> product_ids (snd (run_schedule NUM es (initial_config n m))) \<noteq> [])
   \<and> (is_setup_complete (snd (run_schedule NUM es (initial_config n m)))
      \<longrightarrow> is_setup_complete (snd (run_schedule NUM (es @ es') (initial_config n m)))
        \<and> product_ids (snd (run_schedule NUM (es @ es') (initial_config n m))) \<noteq> [])
   \<and> (\<not> is_setup_complete (snd (run_schedule NUM es (initial_config n m)))
       \<and> is_setup_complete (snd (run_schedule NUM (es @ [(i, ev)]) (initial_config n m)))
      \<longrightarrow> product_ids (snd (run_schedule NUM es (initial_config n m))) \<noteq> []
        \<and> i < length (fst (run_schedule NUM es (initial_config n m)))
        \<and> (fst (run_schedule NUM es (initial_config n m)) ! i = ShopperUser Completing
           \<or> fst (run_schedule NUM es (initial_config n m)) ! i = ProductSetupUser Marking
             \<and> NUM \<le> get_product_count (snd (run_schedule NUM es (initial_config n m)))))"
proof -
  have I: "protocol_inv NUM (run_schedule NUM ds (initial_config n m))" for ds
    by (rule run_schedule_inv) (rule initial_config_inv)
  have a: "product_ids (snd (run_schedule NUM ds (initial_config n m))) \<noteq> []"
    if "is_setup_complete (snd (run_schedule NUM ds (initial_config n m)))" for ds
    using that I [of ds] by (auto simp: protocol_inv_def is_setup_complete_def split: prod.splits)
  have b: "is_setup_complete (snd (run_schedule NUM (es @ es') (initial_config n m)))"
    if "is_setup_complete (snd (run_schedule NUM es (initial_config n m)))"
    using that run_schedule_flag_stays [of "run_schedule NUM es (initial_config n m)" NUM es']
    by (simp add: is_setup_complete_def run_schedule_append)
  have c: "product_ids (snd (run_schedule NUM es (initial_config n m))) \<noteq> []
        \<and> i < length (fst (run_schedule NUM es (initial_config n m)))
        \<and> (fst (run_schedule NUM es (initial_config n m)) ! i = ShopperUser Completing
           \<or> fst (run_schedule NUM es (initial_config n m)) ! i = ProductSetupUser Marking
             \<and> NUM \<le> get_product_count (snd (run_schedule NUM es (initial_config n m))))"
    if n: "\<not> is_setup_complete (snd (run_schedule NUM es (initial_config n m)))"
      and y: "is_setup_complete (snd (run_schedule NUM (es @ [(i, ev)]) (initial_config n m)))"
  proof -
    obtain us s where cfg: "run_schedule NUM es (initial_config n m) = (us, s)"
      by (cases "run_schedule NUM es (initial_config n m)")
    have n': "\<not> setup_complete s"
      using n by (simp add: cfg is_setup_complete_def)
    have y': "setup_complete (snd (schedule_step NUM (i, ev) (us, s)))"
      using y by (simp add: run_schedule_append cfg is_setup_complete_def)
    from schedule_step_flag [OF n' y']
    have i: "i < length us"
      and pc: "us ! i = ShopperUser Completing \<or> us ! i = ProductSetupUser Marking"
      by simp_all
    have mem: "us ! i \<in> set us" using i by simp
    have inv: "protocol_inv NUM (us, s)"
      using I [of es] by (simp add: cfg)
    have "needs_product (us ! i)"
      using pc by (auto simp: needs_product_def)
    then have ne: "product_ids s \<noteq> []"
      using inv mem by (auto simp: protocol_inv_def)
    have "us ! i = ProductSetupUser Marking \<Longrightarrow> NUM \<le> get_product_count s"
      using inv mem by (auto simp: protocol_inv_def)
    then show ?thesis
      using ne i pc by (auto simp: cfg)
  qed
  from a [of es] a [of "es @ es'"] b c show ?thesis by blast
qed

text \<open>
  One setup user, one shopper, target 2. After \<open>first_product_schedule\<close> the flag is
  unset and the shopper is at \<open>Completing\<close>; its next step sets the flag, with one
  product in the list, below the target.
\<close>

theorem C4_witness:
  "is_setup_complete
     (snd (run_schedule 2 (first_product_schedule @ [(1, Tick)]) (initial_config 1 1)))
   \<and> product_ids
       (snd (run_schedule 2 (first_product_schedule @ [(1, Tick)]) (initial_config 1 1))) \<noteq> []
   \<and> \<not> is_setup_complete (snd (run_schedule 2 first_product_schedule (initial_config 1 1)))
   \<and> product_ids (snd (run_schedule 2 first_product_schedule (initial_config 1 1))) \<noteq> []
   \<and> fst (run_schedule 2 first_product_schedule (initial_config 1 1)) ! 1
       = ShopperUser Completing
   \<and> get_product_count (snd (run_schedule 2 first_product_schedule (initial_config 1 1))) < 2"
proof -
  have h1: "is_setup_complete
     (snd (run_schedule 2 (first_product_schedule @ [(1, Tick)]) (initial_config 1 1)))"
    by code_simp
  have h2: "\<not> is_setup_complete
     (snd (run_schedule 2 first_product_schedule (initial_config 1 1)))"
    by code_simp
  have h3: "fst (run_schedule 2 first_product_schedule (initial_config 1 1)) ! 1
              = ShopperUser Completing"
    by code_simp
  have h4: "get_product_count
              (snd (run_schedule 2 first_product_schedule (initial_config 1 1))) < 2"
    by code_simp
  show ?thesis
    using h1 h2 h3 h4
      C4_setup_complete_has_products
        [of 2 "first_product_schedule @ [(1, Tick)]" 1 1 "[]" 1 Tick]
      C4_setup_complete_has_products [of 2 first_product_schedule 1 1 "[]" 1 Tick]
    by simp
qed

section \<open>Properties of the summary table\<close>






















lemma calc_diff_total: "\<exists>d. calc_diff ls_val aws_val = Inr d"
  by (simp add: calc_diff_def f_div_def)

lemma difference_total: "\<exists>d. difference v = Inr d"
proof -
  obtain l a where v: "v = (l, a)" by (cases v)
  show ?thesis
    using calc_diff_total by (cases l) (simp_all add: v)
qed

lemma differences_total:
  "\<exists>ds. differences vs = Inr ds \<and> list_all2 (\<lambda>v d. difference v = Inr d) vs ds"
proof (induction vs)
  case Nil
  show ?case by simp
next
  case (Cons v vs)
  obtain d where d: "difference v = Inr d" using difference_total by blast
  from Cons.IH obtain ds where "differences vs = Inr ds"
    "list_all2 (\<lambda>v d. difference v = Inr d) vs ds" by blast
  then show ?case by (simp add: d)
qed

lemma int_of_finite: "finite_cell c \<Longrightarrow> \<exists>n. int_of c = Inr n"
proof (cases c)
  case (Integer n)
  then show ?thesis by simp
next
  case (Float x)
  assume "finite_cell c"
  then show ?thesis using Float by (cases x) simp_all
qed




lemma summary_column_NaN:
  assumes "safe_get row ''Request Count'' = Float NaN
           \<or> finite_cell (safe_get row ''Request Count'')
             \<and> safe_get row ''Failure Count'' = Float NaN"
  shows "summary_column row = Inl ValueError"
proof -
  from assms show ?thesis
  proof
    assume "safe_get row ''Request Count'' = Float NaN"
    then show ?thesis by (simp add: summary_column_def)
  next
    assume a: "finite_cell (safe_get row ''Request Count'')
                 \<and> safe_get row ''Failure Count'' = Float NaN"
    then obtain n where "int_of (safe_get row ''Request Count'') = Inr n"
      using int_of_finite by blast
    then show ?thesis using a by (simp add: summary_column_def)
  qed
qed

lemma get_aggregated_row_total: "df \<noteq> [] \<Longrightarrow> \<exists>r. get_aggregated_row df = Inr r"
  by (simp add: get_aggregated_row_def split: list.splits)





lemma scenario_values:
  "of_integer 100 = Finite False 100" "of_integer 5 = Finite False 5"
  "of_integer 200 = Finite False 200" "of_integer 40 = Finite False 40"
  "(case f_div (Finite False 5) (Finite False 100) of
      Inl e \<Rightarrow> Inl e | Inr q \<Rightarrow> Inr (np_round2 (f_mul q (Finite False 100))))
   = Inr (Finite False 5)"
  "(case f_div (Finite False 40) (Finite False 200) of
      Inl e \<Rightarrow> Inl e | Inr q \<Rightarrow> Inr (np_round2 (f_mul q (Finite False 100))))
   = Inr (Finite False 20)"
  "calc_diff (Finite False 1) (Finite False 4) = Inr ''+300.0%''"
  "calc_diff (Finite False 5) (Finite False 20) = Inr ''+300.0%''"
  by code_simp+

lemma cell_holds_int_of: "cell_holds c n \<Longrightarrow> 0 \<le> n \<Longrightarrow> int_of c = Inr n"
  by (auto simp: cell_holds_def)

lemma failure_rate_scenario:
  "cell_holds (safe_get row ''Request Count'') 100
     \<Longrightarrow> cell_holds (safe_get row ''Failure Count'') 5
     \<Longrightarrow> failure_rate row = Inr (Finite False 5)"
  "cell_holds (safe_get row ''Request Count'') 200
     \<Longrightarrow> cell_holds (safe_get row ''Failure Count'') 40
     \<Longrightarrow> failure_rate row = Inr (Finite False 20)"
proof -
  show "failure_rate row = Inr (Finite False 5)"
    if "cell_holds (safe_get row ''Request Count'') 100"
      "cell_holds (safe_get row ''Failure Count'') 5"
  proof -
    have "to_f64 (max_1 (safe_get row ''Request Count'')) = Finite False 100"
      using that(1) by (auto simp: cell_holds_def scenario_values signed_def)
    moreover have "to_f64 (safe_get row ''Failure Count'') = Finite False 5"
      using that(2) by (auto simp: cell_holds_def scenario_values)
    ultimately show ?thesis
      using scenario_values(5) by (simp add: failure_rate_def true_div_def)
  qed
  show "failure_rate row = Inr (Finite False 20)"
    if "cell_holds (safe_get row ''Request Count'') 200"
      "cell_holds (safe_get row ''Failure Count'') 40"
  proof -
    have "to_f64 (max_1 (safe_get row ''Request Count'')) = Finite False 200"
      using that(1) by (auto simp: cell_holds_def scenario_values signed_def)
    moreover have "to_f64 (safe_get row ''Failure Count'') = Finite False 40"
      using that(2) by (auto simp: cell_holds_def scenario_values)
    ultimately show ?thesis
      using scenario_values(6) by (simp add: failure_rate_def true_div_def)
  qed
qed

lemma summary_column_rate:
  assumes "int_of (safe_get row ''Request Count'') = Inr n1"
    and "int_of (safe_get row ''Failure Count'') = Inr n2"
    and "failure_rate row = Inr rate"
  shows "\<exists>col. summary_column row = Inr col \<and> length col = 8 \<and> col ! 2 = Float rate"
  using assms by (simp add: summary_column_def)

lemma create_summary_rate_row:
  assumes "get_aggregated_row lf = Inr ls" and "get_aggregated_row af = Inr aws"
    and "int_of (safe_get ls ''Request Count'') = Inr n1"
    and "int_of (safe_get ls ''Failure Count'') = Inr n2"
    and "int_of (safe_get aws ''Request Count'') = Inr n3"
    and "int_of (safe_get aws ''Failure Count'') = Inr n4"
    and "failure_rate ls = Inr x" and "failure_rate aws = Inr y"
    and "calc_diff x y = Inr d"
  shows "\<exists>t. create_summary lf af = Inr t \<and> t ! 2 = (''Failure Rate (%)'', Float x, Float y, d)"
proof -
  obtain L where L: "summary_column ls = Inr L" "length L = 8" "L ! 2 = Float x"
    using summary_column_rate [OF assms(3,4,7)] by blast
  obtain A where A: "summary_column aws = Inr A" "length A = 8" "A ! 2 = Float y"
    using summary_column_rate [OF assms(5,6,8)] by blast
  have FL: "length (float_column L) = 8" "float_column L ! 2 = Float x"
    using L by (simp_all add: float_column_def)
  have FA: "length (float_column A) = 8" "float_column A ! 2 = Float y"
    using A by (simp_all add: float_column_def)
  obtain D where D: "differences (zip (float_column L) (float_column A)) = Inr D"
    "list_all2 (\<lambda>v d. difference v = Inr d) (zip (float_column L) (float_column A)) D"
    using differences_total by blast
  have len: "length D = 8" using D(2) FL FA by (auto dest: list_all2_lengthD)
  have two: "2 < length (zip (float_column L) (float_column A))"
    using FL FA by simp
  have "difference (zip (float_column L) (float_column A) ! 2) = Inr (D ! 2)"
    by (rule list_all2_nthD [OF D(2) two])
  then have "calc_diff x y = Inr (D ! 2)"
    using FL FA by simp
  then have d2: "D ! 2 = d" using assms(9) by simp
  have "zip Metric (zip (float_column L) (zip (float_column A) D)) ! 2
          = (''Failure Rate (%)'', Float x, Float y, d)"
    using FL FA len d2 by (simp add: Metric_def)
  then show ?thesis
    using assms(1,2) L(1) A(1) D(1) by (simp add: create_summary_def Let_def)
qed

text \<open>
  C8. For aggregated rows with \<^verbatim>\<open>Request Count\<close> 100, \<^verbatim>\<open>Failure Count\<close> 5 and with
  \<^verbatim>\<open>Request Count\<close> 200, \<^verbatim>\<open>Failure Count\<close> 40, held as integers or as floats, the failure
  rates are 5.0 and 20.0, in binary64 arithmetic, and the failure-rate row of the table of
  \<^verbatim>\<open>create_summary\<close> holds them. The difference of a metric that goes from 1 to 4 is the
  string \<^verbatim>\<open>+300.0%\<close>: a sign and one decimal; so is the difference of the two failure
  rates.
\<close>

theorem C8_summary_scenario:
  "(cell_holds (safe_get ls ''Request Count'') 100 \<and> cell_holds (safe_get ls ''Failure Count'') 5
      \<longrightarrow> failure_rate ls = Inr (Finite False 5))
   \<and> (cell_holds (safe_get aws ''Request Count'') 200
       \<and> cell_holds (safe_get aws ''Failure Count'') 40
      \<longrightarrow> failure_rate aws = Inr (Finite False 20))
   \<and> calc_diff (Finite False 1) (Finite False 4) = Inr ''+300.0%''
   \<and> (get_aggregated_row lf = Inr ls \<and> get_aggregated_row af = Inr aws
       \<and> cell_holds (safe_get ls ''Request Count'') 100
       \<and> cell_holds (safe_get ls ''Failure Count'') 5
       \<and> cell_holds (safe_get aws ''Request Count'') 200
       \<and> cell_holds (safe_get aws ''Failure Count'') 40
      \<longrightarrow> (\<exists>t. create_summary lf af = Inr t
               \<and> t ! 2 = (''Failure Rate (%)'', Float (Finite False 5),
                            Float (Finite False 20), ''+300.0%'')))"
proof -
  have row: "\<exists>t. create_summary lf af = Inr t
               \<and> t ! 2 = (''Failure Rate (%)'', Float (Finite False 5),
                            Float (Finite False 20), ''+300.0%'')"
    if "get_aggregated_row lf = Inr ls" "get_aggregated_row af = Inr aws"
      "cell_holds (safe_get ls ''Request Count'') 100"
      "cell_holds (safe_get ls ''Failure Count'') 5"
      "cell_holds (safe_get aws ''Request Count'') 200"
      "cell_holds (safe_get aws ''Failure Count'') 40"
  proof -
    have x: "failure_rate ls = Inr (Finite False 5)"
      using that by (simp add: failure_rate_scenario)
    have y: "failure_rate aws = Inr (Finite False 20)"
      using that by (simp add: failure_rate_scenario)
    have i: "int_of (safe_get ls ''Request Count'') = Inr 100"
      "int_of (safe_get ls ''Failure Count'') = Inr 5"
      "int_of (safe_get aws ''Request Count'') = Inr 200"
      "int_of (safe_get aws ''Failure Count'') = Inr 40"
      using that by (simp_all add: cell_holds_int_of)
    show ?thesis
      by (rule create_summary_rate_row [OF that(1,2) i x y scenario_values(8)])
  qed
  show ?thesis
    using row failure_rate_scenario [of ls] failure_rate_scenario [of aws]
    by (simp add: scenario_values)
qed

text \<open>
  Two statistics files with an endpoint row before the aggregated one; the columns that
  the scenario does not give are absent, and read as 0.
\<close>

theorem C8_witness:
  "failure_rate
     \<lparr>Name = Some ''Aggregated'',
      cells = [(''Request Count'', Integer 100), (''Failure Count'', Integer 5)]\<rparr>
     = Inr (Finite False 5)
   \<and> failure_rate
     \<lparr>Name = Some ''Aggregated'',
      cells = [(''Request Count'', Integer 200), (''Failure Count'', Integer 40)]\<rparr>
     = Inr (Finite False 20)
   \<and> create_summary
       [\<lparr>Name = Some ''POST /product'',
         cells = [(''Request Count'', Integer 60), (''Failure Count'', Integer 1)]\<rparr>,
        \<lparr>Name = Some ''Aggregated'',
         cells = [(''Request Count'', Integer 100), (''Failure Count'', Integer 5)]\<rparr>]
       [\<lparr>Name = Some ''Aggregated'',
         cells = [(''Request Count'', Integer 200), (''Failure Count'', Integer 40)]\<rparr>]
     = Inr [(''Total Requests'', Float (Finite False 100), Float (Finite False 200),
             ''+100.0%''),
            (''Failed Requests'', Float (Finite False 5), Float (Finite False 40),
             ''+700.0%''),
            (''Failure Rate (%)'', Float (Finite False 5), Float (Finite False 20),
             ''+300.0%''),
            (''Avg Response Time (ms)'', Float (Finite False 0), Float (Finite False 0),
             ''N/A''),
            (''Median Response Time (ms)'', Float (Finite False 0), Float (Finite False 0),
             ''N/A''),
            (''P95 Response Time (ms)'', Float (Finite False 0), Float (Finite False 0),
             ''N/A''),
            (''P99 Response Time (ms)'', Float (Finite False 0), Float (Finite False 0),
             ''N/A''),
            (''Requests/sec (RPS)'', Float (Finite False 0), Float (Finite False 0),
             ''N/A'')]"
proof -
  have h: "create_summary
       [\<lparr>Name = Some ''POST /product'',
         cells = [(''Request Count'', Integer 60), (''Failure Count'', Integer 1)]\<rparr>,
        \<lparr>Name = Some ''Aggregated'',
         cells = [(''Request Count'', Integer 100), (''Failure Count'', Integer 5)]\<rparr>]
       [\<lparr>Name = Some ''Aggregated'',
         cells = [(''Request Count'', Integer 200), (''Failure Count'', Integer 40)]\<rparr>]
     = Inr [(''Total Requests'', Float (Finite False 100), Float (Finite False 200),
             ''+100.0%''),
            (''Failed Requests'', Float (Finite False 5), Float (Finite False 40),
             ''+700.0%''),
            (''Failure Rate (%)'', Float (Finite False 5), Float (Finite False 20),
             ''+300.0%''),
            (''Avg Response Time (ms)'', Float (Finite False 0), Float (Finite False 0),
             ''N/A''),
            (''Median Response Time (ms)'', Float (Finite False 0), Float (Finite False 0),
             ''N/A''),
            (''P95 Response Time (ms)'', Float (Finite False 0), Float (Finite False 0),
             ''N/A''),
            (''P99 Response Time (ms)'', Float (Finite False 0), Float (Finite False 0),
             ''N/A''),
            (''Requests/sec (RPS)'', Float (Finite False 0), Float (Finite False 0),
             ''N/A'')]"
    by code_simp
  have r: "get_aggregated_row
       [\<lparr>Name = Some ''POST /product'',
         cells = [(''Request Count'', Integer 60), (''Failure Count'', Integer 1)]\<rparr>,
        \<lparr>Name = Some ''Aggregated'',
         cells = [(''Request Count'', Integer 100), (''Failure Count'', Integer 5)]\<rparr>]
     = Inr \<lparr>Name = Some ''Aggregated'',
            cells = [(''Request Count'', Integer 100), (''Failure Count'', Integer 5)]\<rparr>"
    "get_aggregated_row
       [\<lparr>Name = Some ''Aggregated'',
         cells = [(''Request Count'', Integer 200), (''Failure Count'', Integer 40)]\<rparr>]
     = Inr \<lparr>Name = Some ''Aggregated'',
            cells = [(''Request Count'', Integer 200), (''Failure Count'', Integer 40)]\<rparr>"
    by (simp_all add: get_aggregated_row_def)
  have g: "cell_holds (safe_get \<lparr>Name = Some ''Aggregated'',
             cells = [(''Request Count'', Integer 100), (''Failure Count'', Integer 5)]\<rparr>
             ''Request Count'') 100"
    "cell_holds (safe_get \<lparr>Name = Some ''Aggregated'',
             cells = [(''Request Count'', Integer 100), (''Failure Count'', Integer 5)]\<rparr>
             ''Failure Count'') 5"
    "cell_holds (safe_get \<lparr>Name = Some ''Aggregated'',
             cells = [(''Request Count'', Integer 200), (''Failure Count'', Integer 40)]\<rparr>
             ''Request Count'') 200"
    "cell_holds (safe_get \<lparr>Name = Some ''Aggregated'',
             cells = [(''Request Count'', Integer 200), (''Failure Count'', Integer 40)]\<rparr>
             ''Failure Count'') 40"
    by (simp_all add: safe_get_def cell_holds_def)
  show ?thesis
    using h r g
      C8_summary_scenario
        [where ls = "\<lparr>Name = Some ''Aggregated'',
                      cells = [(''Request Count'', Integer 100),
                               (''Failure Count'', Integer 5)]\<rparr>"
           and aws = "\<lparr>Name = Some ''Aggregated'',
                       cells = [(''Request Count'', Integer 200),
                                (''Failure Count'', Integer 40)]\<rparr>"
           and lf = "[\<lparr>Name = Some ''POST /product'',
                       cells = [(''Request Count'', Integer 60),
                                (''Failure Count'', Integer 1)]\<rparr>,
                      \<lparr>Name = Some ''Aggregated'',
                       cells = [(''Request Count'', Integer 100),
                                (''Failure Count'', Integer 5)]\<rparr>]"
           and af = "[\<lparr>Name = Some ''Aggregated'',
                       cells = [(''Request Count'', Integer 200),
                                (''Failure Count'', Integer 40)]\<rparr>]"]
    by simp
qed



text \<open>
  C9 as the claim states it fails on a missing count that is an empty cell: pandas reads
  it as NaN, \<^verbatim>\<open>safe_get\<close> returns it, since the column is there, and \<^verbatim>\<open>int\<close> of line 106
  raises \<^verbatim>\<open>ValueError\<close>.
\<close>

theorem C9_counterexample:
  "create_summary
     [\<lparr>Name = Some ''Aggregated'',
       cells = [(''Request Count'', Float NaN), (''Failure Count'', Integer 0)]\<rparr>]
     [\<lparr>Name = Some ''Aggregated'',
       cells = [(''Request Count'', Integer 200), (''Failure Count'', Integer 40)]\<rparr>]
   = Inl ValueError"
  by (simp add: create_summary_def get_aggregated_row_def summary_column_def safe_get_def)

end
